theory Spec2Isabelle
  imports Main "HOL-Library.Char_ord" "HOL-Library.List_Lexorder"
begin

section \<open>The cloud-sync hook of the year planner\<close>

text \<open>
  This theory embeds \<^verbatim>\<open>src/hooks/useCloudSync.ts\<close>: the React hook \<^verbatim>\<open>useCloudSync\<close> that
  pulls a calendar document on mount, pushes local changes after a debounce, and applies
  change notifications of a realtime channel. The hook is a function of its props
  (\<^verbatim>\<open>year\<close>, \<^verbatim>\<open>dateCells\<close>, \<^verbatim>\<open>setDateCells\<close>) and of the authenticated user; its refs, its state
  and the browser objects it touches (local storage, timers, the requests awaiting an answer,
  the subscribed channel) are the fields of one record, and every callback of the source is a
  function on that record. Calls that leave the hook (to the remote store and to the host's
  \<^verbatim>\<open>setDateCells\<close>) are appended to a log.
\<close>

subsection \<open>Data\<close>

text \<open>
  Modelled from the spec: \<^verbatim>\<open>DateCellData\<close> is imported from \<^verbatim>\<open>utils/colors\<close>, which is not part of
  the sources at hand; the spec calls it an opaque per-day annotation (a colour tag). The hook
  never looks inside it.
\<close>

type_synonym DateCellData = string

text \<open>
  A \<^verbatim>\<open>Map<string, DateCellData>\<close> and the plain object \<^verbatim>\<open>Record<string, DateCellData>\<close> of the wire
  format are both represented by their entries in insertion order (date keys are distinct and
  not integer-like, so \<^verbatim>\<open>Object.fromEntries\<close>, \<^verbatim>\<open>Object.entries\<close> and \<^verbatim>\<open>new Map\<close> keep the list);
  \<^verbatim>\<open>size === 0\<close> and \<^verbatim>\<open>entries.length === 0\<close> are the test for the empty list.
\<close>

type_synonym Cells = "(string \<times> DateCellData) list"

datatype SyncStatus = Idle | Pushing | Pulling | Error | Offline

text \<open>The string literal of each member of the union type \<^verbatim>\<open>SyncStatus\<close>.\<close>

fun SyncStatus_literal :: "SyncStatus \<Rightarrow> string" where
  "SyncStatus_literal Idle = ''idle''"
| "SyncStatus_literal Pushing = ''pushing''"
| "SyncStatus_literal Pulling = ''pulling''"
| "SyncStatus_literal Error = ''error''"
| "SyncStatus_literal Offline = ''offline''"

definition DEBOUNCE_MS :: nat where
  "DEBOUNCE_MS = 500"

text \<open>The row of \<^verbatim>\<open>calendar_states\<close> that a change notification carries in \<^verbatim>\<open>payload.new\<close>.\<close>

record Row =
  row_year :: int
  row_data :: Cells
  row_updated_at :: string

text \<open>
  What \<^verbatim>\<open>maybeSingle()\<close> resolves to: \<^verbatim>\<open>{error}\<close>, a rejected promise, \<^verbatim>\<open>{data: null}\<close>, or the
  selected columns \<^verbatim>\<open>data\<close> and \<^verbatim>\<open>updated_at\<close>. The answer of \<^verbatim>\<open>upsert\<close> carries an error or
  nothing.
\<close>

datatype FetchResult = FetchError | FetchRejected | FetchNoRow | FetchRow Cells string

datatype UpsertResult = UpsertOk | UpsertError | UpsertRejected

text \<open>
  The calls that leave the hook: the query and the upsert on \<^verbatim>\<open>calendar_states\<close> (user id, year,
  and for the upsert \<^verbatim>\<open>data\<close> and \<^verbatim>\<open>updated_at\<close>), the subscription of a channel (year and
  numeric suffix of its name, user id of its filter), its removal, and the host's
  \<^verbatim>\<open>setDateCells\<close>.
\<close>

datatype Call =
    Fetch string int
  | Upsert string int Cells string
  | Subscribe int nat string
  | RemoveChannel int nat
  | SetDateCells Cells

text \<open>
  A request awaiting its answer. A pull remembers whether it was started by the mount effect,
  whose \<^verbatim>\<open>.then\<close> sets \<^verbatim>\<open>initialPullDoneRef\<close>; a push remembers the timestamp \<^verbatim>\<open>now\<close> that it sent.
\<close>

datatype Request = PullRequest bool | PushRequest string

text \<open>
  The platform's \<^verbatim>\<open>new Date(s).getTime()\<close> is a parameter of the model, of this type; \<open>None\<close>
  stands for \<^verbatim>\<open>NaN\<close>.
\<close>

type_synonym GetTime = "string \<Rightarrow> int option"

text \<open>
  A pending timeout: its handle, its deadline, and the user and the year that the
  \<^verbatim>\<open>pushToCloud\<close> of its callback closed over.
\<close>

record Timeout =
  handle :: nat
  deadline :: nat
  boundUser :: "string option"
  boundYear :: int

record Engine =
  supabase :: bool
  user :: "string option"
  year :: int
  dateCells :: Cells
  syncStatus :: SyncStatus
  isPushingRef :: bool
  debounceTimerRef :: "nat option"
  isFromRealtimeRef :: bool
  initialPullDoneRef :: bool
  channelIdRef :: nat
  autoPushCleanup :: bool
  channel :: "(int \<times> nat) option"
  storageItem :: "string option"
  storageGetThrows :: bool
  storageSetThrows :: bool
  wallClock :: string
  clock :: nat
  timers :: "Timeout list"
  nextTimer :: nat
  inflight :: "(nat \<times> Request) list"
  nextRequest :: nat
  calls :: "Call list"

text \<open>
  \<open>supabase\<close> says whether the client of \<^verbatim>\<open>lib/supabase\<close> is configured (not \<^verbatim>\<open>null\<close>); \<open>user\<close>
  is the id of the user of \<^verbatim>\<open>useAuth()\<close>; \<open>dateCells\<close> is the prop of the latest render, which is
  also \<^verbatim>\<open>dateCellsRef.current\<close>. \<open>autoPushCleanup\<close> says whether the latest run of the auto-push
  effect returned its cleanup function, and \<open>channel\<close> is the subscribed channel (the year its
  handler closed over, and the suffix of its name), which is also the cleanup of the realtime
  effect. \<open>storageItem\<close> is the entry \<^verbatim>\<open>calendar_sync_ts\<close> of \<^verbatim>\<open>localStorage\<close>; the two flags say
  whether reading and writing it throw. \<open>wallClock\<close> is what \<^verbatim>\<open>new Date().toISOString()\<close> returns
  at this moment; \<open>clock\<close> counts the milliseconds that timers run on, and \<open>timers\<close> are the
  pending timeouts.
\<close>

subsection \<open>Local storage\<close>

definition getSyncTimestamp :: "Engine \<Rightarrow> string option" where
  "getSyncTimestamp s = (if storageGetThrows s then None else storageItem s)"

definition setSyncTimestamp :: "string \<Rightarrow> Engine \<Rightarrow> Engine" where
  "setSyncTimestamp ts s = (if storageSetThrows s then s else s\<lparr>storageItem := Some ts\<rparr>)"

text \<open>Truthiness of a \<^verbatim>\<open>string | null\<close>: \<^verbatim>\<open>null\<close> and the empty string are falsy.\<close>

fun truthy :: "string option \<Rightarrow> bool" where
  "truthy None = False"
| "truthy (Some ts) = (ts \<noteq> [])"

subsection \<open>Push and pull\<close>

definition isEnabled :: "Engine \<Rightarrow> bool" where
  "isEnabled s = (supabase s \<and> user s \<noteq> None)"

definition setDateCells :: "Cells \<Rightarrow> Engine \<Rightarrow> Engine" where
  "setDateCells m s = s\<lparr>calls := calls s @ [SetDateCells m]\<rparr>"

definition await :: "Request \<Rightarrow> Engine \<Rightarrow> Engine" where
  "await r s = s\<lparr>inflight := inflight s @ [(nextRequest s, r)], nextRequest := Suc (nextRequest s)\<rparr>"

text \<open>
  \<^verbatim>\<open>pushToCloud\<close> and \<^verbatim>\<open>pullFromCloud\<close> are built by \<^verbatim>\<open>useCallback\<close> with the dependencies
  \<^verbatim>\<open>[user, year]\<close>: each of them is a closure over the user and the year of the render that built
  it, and these two are its first arguments here. Whoever holds such a function, the host or a
  timer, calls it with the user and the year it was built with, whatever the hook is rendered
  with by then. The refs and the storage are read at the time of the call.

  \<^verbatim>\<open>pushToCloud\<close> up to its \<^verbatim>\<open>await\<close>, and its continuation with the answer of the upsert.
\<close>

definition pushToCloud :: "string option \<Rightarrow> int \<Rightarrow> Engine \<Rightarrow> Engine" where
  "pushToCloud usr yr s =
     (case usr of
        None \<Rightarrow> s
      | Some u \<Rightarrow>
          if \<not> supabase s then s
          else
            let now = wallClock s;
                dataObj = dateCells s
            in await (PushRequest now)
                 (s\<lparr>isPushingRef := True, syncStatus := Pushing,
                    calls := calls s @ [Upsert u yr dataObj now]\<rparr>))"

definition pushResolved :: "string \<Rightarrow> UpsertResult \<Rightarrow> Engine \<Rightarrow> Engine" where
  "pushResolved now r s =
     (case r of
        UpsertOk \<Rightarrow> (setSyncTimestamp now s)\<lparr>syncStatus := Idle\<rparr>
      | UpsertError \<Rightarrow> s\<lparr>syncStatus := Error\<rparr>
      | UpsertRejected \<Rightarrow> s\<lparr>syncStatus := Error\<rparr>)\<lparr>isPushingRef := False\<rparr>"

text \<open>
  \<^verbatim>\<open>pullFromCloud\<close> up to its \<^verbatim>\<open>await\<close>. The first argument says whether the call is the one of the
  mount effect, which chains \<^verbatim>\<open>.then(() => { initialPullDoneRef.current = true })\<close>. What
  follows the \<^verbatim>\<open>await\<close>, in the pull and in the push, reads neither the user nor the year.
\<close>

definition pullFromCloud :: "bool \<Rightarrow> string option \<Rightarrow> int \<Rightarrow> Engine \<Rightarrow> Engine" where
  "pullFromCloud fromEffect usr yr s =
     (case usr of
        None \<Rightarrow> (if fromEffect then s\<lparr>initialPullDoneRef := True\<rparr> else s)
      | Some u \<Rightarrow>
          if \<not> supabase s then (if fromEffect then s\<lparr>initialPullDoneRef := True\<rparr> else s)
          else await (PullRequest fromEffect)
                 (s\<lparr>syncStatus := Pulling, calls := calls s @ [Fetch u yr]\<rparr>))"

text \<open>
  The condition under which a fetched, non-empty document replaces the local one:
  \<^verbatim>\<open>!localTs || cloudTs > localTs || dateCellsRef.current.size === 0\<close>. The comparison is the
  one of strings, by code units from the left.
\<close>

definition cloudWins :: "string option \<Rightarrow> string \<Rightarrow> Cells \<Rightarrow> bool" where
  "cloudWins localTs cloudTs cells =
     (case localTs of
        None \<Rightarrow> True
      | Some l \<Rightarrow> if l = [] then True else if l < cloudTs then True else cells = [])"

text \<open>The continuation of \<^verbatim>\<open>pullFromCloud\<close> with the answer of the query.\<close>

definition pullResolved :: "FetchResult \<Rightarrow> Engine \<Rightarrow> Engine" where
  "pullResolved r s =
     (case r of
        FetchError \<Rightarrow> s\<lparr>syncStatus := Error\<rparr>
      | FetchRejected \<Rightarrow> s\<lparr>syncStatus := Error\<rparr>
      | FetchNoRow \<Rightarrow> s\<lparr>syncStatus := Idle\<rparr>
      | FetchRow cloudEntries cloudTs \<Rightarrow>
          if cloudEntries = [] then s\<lparr>syncStatus := Idle\<rparr>
          else if cloudWins (getSyncTimestamp s) cloudTs (dateCells s)
          then (setSyncTimestamp cloudTs (setDateCells cloudEntries s))\<lparr>syncStatus := Idle\<rparr>
          else s\<lparr>syncStatus := Idle\<rparr>)"

subsection \<open>The realtime handler\<close>

text \<open>
  \<^verbatim>\<open>new Date(a).getTime() === new Date(b).getTime()\<close>: \<^verbatim>\<open>NaN\<close> is equal to nothing, itself
  included.
\<close>

definition sameInstant :: "GetTime \<Rightarrow> string \<Rightarrow> string \<Rightarrow> bool" where
  "sameInstant getTime a b =
     (case getTime a of
        None \<Rightarrow> False
      | Some x \<Rightarrow> (case getTime b of None \<Rightarrow> False | Some y \<Rightarrow> x = y))"

text \<open>The callback of \<^verbatim>\<open>channel.on\<close>; \<open>yr\<close> is the year its closure holds.\<close>

definition onChange :: "GetTime \<Rightarrow> int \<Rightarrow> Row \<Rightarrow> Engine \<Rightarrow> Engine" where
  "onChange getTime yr row s =
     (if row_year row \<noteq> yr then s
      else
        let localTs = getSyncTimestamp s in
        if (case localTs of
              None \<Rightarrow> False
            | Some l \<Rightarrow> truthy localTs \<and> sameInstant getTime (row_updated_at row) l)
        then s
        else if row_data row = [] then s
        else setSyncTimestamp (row_updated_at row)
               (setDateCells (row_data row) (s\<lparr>isFromRealtimeRef := True\<rparr>)))"

subsection \<open>Timers\<close>

definition clearTimeout :: "nat \<Rightarrow> Engine \<Rightarrow> Engine" where
  "clearTimeout i s = s\<lparr>timers := filter (\<lambda>t. handle t \<noteq> i) (timers s)\<rparr>"

subsection \<open>Effects\<close>

text \<open>
  The effect with dependencies \<^verbatim>\<open>[isEnabled, pullFromCloud]\<close>. An effect runs in the commit of a
  render and calls the functions of that render.
\<close>

definition pullEffect :: "Engine \<Rightarrow> Engine" where
  "pullEffect s =
     (if \<not> isEnabled s then s
      else pullFromCloud True (user s) (year s) (s\<lparr>initialPullDoneRef := False\<rparr>))"

text \<open>The effect with dependencies \<^verbatim>\<open>[isEnabled, user, year]\<close>, and its cleanup.\<close>

definition realtimeEffect :: "Engine \<Rightarrow> Engine" where
  "realtimeEffect s =
     (case user s of
        None \<Rightarrow> s
      | Some u \<Rightarrow>
          if \<not> supabase s \<or> \<not> isEnabled s then s
          else
            let n = Suc (channelIdRef s)
            in s\<lparr>channelIdRef := n, channel := Some (year s, n),
                 calls := calls s @ [Subscribe (year s) n u]\<rparr>)"

definition realtimeCleanup :: "Engine \<Rightarrow> Engine" where
  "realtimeCleanup s =
     (case channel s of
        None \<Rightarrow> s
      | Some c \<Rightarrow> s\<lparr>channel := None, calls := calls s @ [RemoveChannel (fst c) (snd c)]\<rparr>)"

text \<open>
  The effect with dependencies \<^verbatim>\<open>[isEnabled, dateCells, pushToCloud]\<close>. A run that returns early
  returns no cleanup; a run that reaches \<^verbatim>\<open>setTimeout\<close> returns the cleanup that clears the
  timer of \<^verbatim>\<open>debounceTimerRef\<close>. Timer handles are positive numbers, hence truthy. The callback
  of the timer calls the \<^verbatim>\<open>pushToCloud\<close> of the render of this run.
\<close>

definition autoPushEffect :: "Engine \<Rightarrow> Engine" where
  "autoPushEffect s =
     (if \<not> isEnabled s then s
      else if \<not> initialPullDoneRef s then s
      else if isPushingRef s then s
      else if isFromRealtimeRef s then s\<lparr>isFromRealtimeRef := False\<rparr>
      else if dateCells s = [] then s
      else
        let s1 = (case debounceTimerRef s of None \<Rightarrow> s | Some i \<Rightarrow> clearTimeout i s)
        in s1\<lparr>debounceTimerRef := Some (nextTimer s1),
               timers := timers s1
                 @ [\<lparr>handle = nextTimer s1, deadline = clock s1 + DEBOUNCE_MS,
                     boundUser = user s1, boundYear = year s1\<rparr>],
               nextTimer := Suc (nextTimer s1),
               autoPushCleanup := True\<rparr>)"

definition autoPushCleanupRun :: "Engine \<Rightarrow> Engine" where
  "autoPushCleanupRun s =
     (if autoPushCleanup s
      then (case debounceTimerRef s of None \<Rightarrow> s | Some i \<Rightarrow> clearTimeout i s)\<lparr>autoPushCleanup := False\<rparr>
      else s)"

text \<open>
  The commit of a render. When \<^verbatim>\<open>user\<close> or \<^verbatim>\<open>year\<close> changed, the dependencies of all three effects
  changed (\<^verbatim>\<open>pullFromCloud\<close> and \<^verbatim>\<open>pushToCloud\<close> are rebuilt from \<^verbatim>\<open>[user, year]\<close>); when only
  \<^verbatim>\<open>dateCells\<close> changed, those of the auto-push effect did. The cleanups of the effects that run
  again come first, then the effects in the order of the source.
\<close>

definition commitKeyChange :: "Engine \<Rightarrow> Engine" where
  "commitKeyChange s =
     autoPushEffect (realtimeEffect (pullEffect (autoPushCleanupRun (realtimeCleanup s))))"

definition commitDocChange :: "Engine \<Rightarrow> Engine" where
  "commitDocChange s = autoPushEffect (autoPushCleanupRun s)"

subsection \<open>Events\<close>

text \<open>
  What can happen to a mounted hook: the auth provider sets another user object (or
  \<^verbatim>\<open>null\<close>), the host renders with another year or with another \<^verbatim>\<open>Map\<close> of date cells, the host
  calls a \<^verbatim>\<open>pushToCloud\<close> or a \<^verbatim>\<open>pullFromCloud\<close> that some render returned (the event names the
  user and the year of that render, which need not be the latest one: \<^verbatim>\<open>handleSyncNow\<close> calls
  \<^verbatim>\<open>pushToCloud\<close> after it has awaited \<^verbatim>\<open>pullFromCloud\<close>), a request is answered, the channel
  delivers a change, and time passes: \<open>Advance dt now\<close> says that \<open>dt\<close> milliseconds pass, after
  which the wall clock reads \<open>now\<close>. A render and the effects it commits are one step.
\<close>

datatype Event =
    AuthChanged "string option"
  | YearChanged int
  | DocChanged Cells
  | CallPush "string option" int
  | CallPull "string option" int
  | PullAnswered nat FetchResult
  | PushAnswered nat UpsertResult
  | Notify Row
  | Advance nat string

text \<open>
  Timers that are due fire in the order in which they were set; the callback of the debounce
  timer is \<^verbatim>\<open>pushToCloud\<close>.
\<close>

fun fireTimers :: "Timeout list \<Rightarrow> Engine \<Rightarrow> Engine" where
  "fireTimers [] s = s"
| "fireTimers (x # xs) s =
     (if deadline x \<le> clock s \<and> x \<in> set (timers s)
      then fireTimers xs
             (pushToCloud (boundUser x) (boundYear x) (s\<lparr>timers := removeAll x (timers s)\<rparr>))
      else fireTimers xs s)"

definition advance :: "nat \<Rightarrow> string \<Rightarrow> Engine \<Rightarrow> Engine" where
  "advance dt now s = fireTimers (timers s) (s\<lparr>clock := clock s + dt, wallClock := now\<rparr>)"

definition step :: "GetTime \<Rightarrow> Event \<Rightarrow> Engine \<Rightarrow> Engine" where
  "step getTime e s =
     (case e of
        AuthChanged u \<Rightarrow>
          (if u = None \<and> user s = None then s else commitKeyChange (s\<lparr>user := u\<rparr>))
      | YearChanged y \<Rightarrow>
          (if y = year s then s else commitKeyChange (s\<lparr>year := y\<rparr>))
      | DocChanged m \<Rightarrow> commitDocChange (s\<lparr>dateCells := m\<rparr>)
      | CallPush usr yr \<Rightarrow> pushToCloud usr yr s
      | CallPull usr yr \<Rightarrow> pullFromCloud False usr yr s
      | PullAnswered i r \<Rightarrow>
          (case map_of (inflight s) i of
             Some (PullRequest fromEffect) \<Rightarrow>
               (let s1 = pullResolved r (s\<lparr>inflight := filter (\<lambda>q. fst q \<noteq> i) (inflight s)\<rparr>)
                in if fromEffect then s1\<lparr>initialPullDoneRef := True\<rparr> else s1)
           | _ \<Rightarrow> s)
      | PushAnswered i r \<Rightarrow>
          (case map_of (inflight s) i of
             Some (PushRequest now) \<Rightarrow>
               pushResolved now r (s\<lparr>inflight := filter (\<lambda>q. fst q \<noteq> i) (inflight s)\<rparr>)
           | _ \<Rightarrow> s)
      | Notify row \<Rightarrow>
          (case channel s of None \<Rightarrow> s | Some c \<Rightarrow> onChange getTime (fst c) row s)
      | Advance dt now \<Rightarrow> advance dt now s)"

fun run :: "GetTime \<Rightarrow> Event list \<Rightarrow> Engine \<Rightarrow> Engine" where
  "run getTime [] s = s"
| "run getTime (e # es) s = run getTime es (step getTime e s)"

text \<open>
  The hook before its first render, and its mount: on the first render every effect runs.
\<close>

definition unmounted :: "bool \<Rightarrow> string option \<Rightarrow> int \<Rightarrow> Cells \<Rightarrow> string option \<Rightarrow> string \<Rightarrow> Engine" where
  "unmounted sb u y m ts now =
     \<lparr>supabase = sb, user = u, year = y, dateCells = m, syncStatus = Idle,
      isPushingRef = False, debounceTimerRef = None, isFromRealtimeRef = False,
      initialPullDoneRef = False, channelIdRef = 0, autoPushCleanup = False, channel = None,
      storageItem = ts, storageGetThrows = False, storageSetThrows = False,
      wallClock = now, clock = 0, timers = [], nextTimer = 1, inflight = [], nextRequest = 0, calls = []\<rparr>"

definition mount :: "bool \<Rightarrow> string option \<Rightarrow> int \<Rightarrow> Cells \<Rightarrow> string option \<Rightarrow> string \<Rightarrow> Engine" where
  "mount sb u y m ts now = autoPushEffect (realtimeEffect (pullEffect (unmounted sb u y m ts now)))"

subsection \<open>An instance of the platform's date parser\<close>

text \<open>
  For evaluating the hook on concrete inputs: \<^verbatim>\<open>new Date(s).getTime()\<close> on the timestamps this
  application meets, which are the output of \<^verbatim>\<open>toISOString\<close> (\<^verbatim>\<open>YYYY-MM-DDTHH:mm:ss.sssZ\<close>) and
  the \<^verbatim>\<open>timestamptz\<close> of the store (the same with any number of fraction digits, or none, and a
  zone \<^verbatim>\<open>Z\<close> or \<^verbatim>\<open>+HH:mm\<close> or \<^verbatim>\<open>-HH:mm\<close>). Every other string is \<^verbatim>\<open>NaN\<close> here. The theorems
  below hold for every parser; this one is used where an input has to be concrete.
\<close>

definition digitValue :: "char \<Rightarrow> nat option" where
  "digitValue c = map_of (zip ''0123456789'' [0, 1, 2, 3, 4, 5, 6, 7, 8, 9]) c"

fun number :: "nat \<Rightarrow> string \<Rightarrow> nat option" where
  "number acc [] = Some acc"
| "number acc (c # cs) =
     (case digitValue c of None \<Rightarrow> None | Some v \<Rightarrow> number (10 * acc + v) cs)"

definition field :: "string \<Rightarrow> nat option" where
  "field cs = (if cs = [] then None else number 0 cs)"

text \<open>The day number of a civil date, counted from 1970-01-01.\<close>

definition daysFromCivil :: "nat \<Rightarrow> nat \<Rightarrow> nat \<Rightarrow> int" where
  "daysFromCivil y m d =
     (let y1 = (if m \<le> 2 then int y - 1 else int y);
          era = y1 div 400;
          yoe = y1 mod 400;
          doy = (153 * (if 2 < m then int m - 3 else int m + 9) + 2) div 5 + int d - 1;
          doe = yoe * 365 + yoe div 4 - yoe div 100 + doy
      in era * 146097 + doe - 719468)"

text \<open>
  The zone suffix as minutes east of Greenwich, and the fraction of a second as milliseconds
  (digits after the third are dropped).
\<close>

definition zoneMinutes :: "string \<Rightarrow> int option" where
  "zoneMinutes z =
     (if z = ''Z'' then Some 0
      else if length z = 6 \<and> (z ! 0 = CHR ''+'' \<or> z ! 0 = CHR ''-'') \<and> z ! 3 = CHR '':''
      then (case (field (take 2 (drop 1 z)), field (drop 4 z)) of
              (Some h, Some m) \<Rightarrow>
                if h < 24 \<and> m < 60
                then Some ((if z ! 0 = CHR ''-'' then - 1 else 1) * (int h * 60 + int m))
                else None
            | _ \<Rightarrow> None)
      else None)"

definition fractionMs :: "string \<Rightarrow> nat option" where
  "fractionMs f =
     (if f = [] then Some 0
      else if hd f = CHR ''.'' \<and> tl f \<noteq> []
      then (case number 0 (tl f) of
              None \<Rightarrow> None
            | Some _ \<Rightarrow> number 0 (take 3 (tl f @ ''000'')))
      else None)"

definition parseIso :: "string \<Rightarrow> int option" where
  "parseIso s =
     (if length s < 20
         \<or> s ! 4 \<noteq> CHR ''-'' \<or> s ! 7 \<noteq> CHR ''-'' \<or> s ! 10 \<noteq> CHR ''T''
         \<or> s ! 13 \<noteq> CHR '':'' \<or> s ! 16 \<noteq> CHR '':''
      then None
      else
        let rest = drop 19 s;
            frac = takeWhile (\<lambda>c. c \<noteq> CHR ''Z'' \<and> c \<noteq> CHR ''+'' \<and> c \<noteq> CHR ''-'') rest;
            zone = dropWhile (\<lambda>c. c \<noteq> CHR ''Z'' \<and> c \<noteq> CHR ''+'' \<and> c \<noteq> CHR ''-'') rest
        in (case (field (take 4 s), field (take 2 (drop 5 s)), field (take 2 (drop 8 s)),
                  field (take 2 (drop 11 s)), field (take 2 (drop 14 s)),
                  field (take 2 (drop 17 s)), fractionMs frac, zoneMinutes zone) of
              (Some y, Some m, Some d, Some hh, Some mm, Some ss, Some ms, Some zm) \<Rightarrow>
                if 1 \<le> m \<and> m \<le> 12 \<and> 1 \<le> d \<and> d \<le> 31 \<and> hh < 24 \<and> mm < 60 \<and> ss < 60
                then Some (daysFromCivil y m d * 86400000
                           + (int hh * 60 + int mm - zm) * 60000 + int ss * 1000 + int ms)
                else None
            | _ \<Rightarrow> None))"

subsection \<open>Notions for the statements\<close>

text \<open>The upserts among the calls made so far, and the calls that reach the remote store.\<close>

fun isUpsert :: "Call \<Rightarrow> bool" where
  "isUpsert (Upsert u y m ts) = True"
| "isUpsert _ = False"

fun isStoreCall :: "Call \<Rightarrow> bool" where
  "isStoreCall (Fetch u y) = True"
| "isStoreCall (Upsert u y m ts) = True"
| "isStoreCall (Subscribe y n u) = True"
| "isStoreCall _ = False"

definition upserts :: "Engine \<Rightarrow> Call list" where
  "upserts s = filter isUpsert (calls s)"

definition storeCalls :: "Engine \<Rightarrow> Call list" where
  "storeCalls s = filter isStoreCall (calls s)"

text \<open>
  The only pending timeout, if there is one, is the one that \<^verbatim>\<open>debounceTimerRef\<close> holds, and the
  cleanup that clears it is registered.
\<close>

definition debounceOnly :: "Engine \<Rightarrow> bool" where
  "debounceOnly s =
     (timers s = []
      \<or> autoPushCleanup s
        \<and> map handle (timers s) = (case debounceTimerRef s of None \<Rightarrow> [] | Some i \<Rightarrow> [i]))"

text \<open>
  The state in which a change of the document schedules a push: sync is enabled, the initial
  pull is done, no push is in flight and the next change is not marked as coming from the
  channel.
\<close>

definition ready :: "Engine \<Rightarrow> bool" where
  "ready s =
     (isEnabled s \<and> initialPullDoneRef s \<and> \<not> isPushingRef s \<and> \<not> isFromRealtimeRef s
      \<and> debounceOnly s)"

text \<open>
  A ready state in which the debounce timer for the document \<open>c\<close> is pending with deadline \<open>d\<close>;
  it was set in a render with the user and the year of the state.
\<close>

definition pending :: "Engine \<Rightarrow> Cells \<Rightarrow> nat \<Rightarrow> bool" where
  "pending s c d =
     (isEnabled s \<and> initialPullDoneRef s \<and> \<not> isPushingRef s \<and> \<not> isFromRealtimeRef s
      \<and> autoPushCleanup s \<and> dateCells s = c
      \<and> (case debounceTimerRef s of
           None \<Rightarrow> False
         | Some i \<Rightarrow>
             timers s = [\<lparr>handle = i, deadline = d, boundUser = user s, boundYear = year s\<rparr>]))"

text \<open>
  A burst of changes of the document: the first one, and then for each further one the time
  that passed since the change before it, the reading of the wall clock, and the new document.
\<close>

fun burst :: "Cells \<Rightarrow> (nat \<times> string \<times> Cells) list \<Rightarrow> Event list" where
  "burst c [] = [DocChanged c]"
| "burst c (x # rest) = DocChanged c # Advance (fst x) (fst (snd x)) # burst (snd (snd x)) rest"

text \<open>
  The part of a run in which no pull of the mount effect is answered: no event of the run is
  the answer to a pull that the effect started, and the host does not call \<^verbatim>\<open>pushToCloud\<close>
  itself.
\<close>

fun isCallPush :: "Event \<Rightarrow> bool" where
  "isCallPush (CallPush usr yr) = True"
| "isCallPush _ = False"

fun answersEffectPull :: "Engine \<Rightarrow> Event \<Rightarrow> bool" where
  "answersEffectPull s (PullAnswered i r) = (map_of (inflight s) i = Some (PullRequest True))"
| "answersEffectPull s _ = False"

fun beforePullAnswer :: "GetTime \<Rightarrow> Event list \<Rightarrow> Engine \<Rightarrow> bool" where
  "beforePullAnswer getTime [] s = True"
| "beforePullAnswer getTime (e # es) s =
     (\<not> answersEffectPull s e \<and> \<not> isCallPush e
      \<and> beforePullAnswer getTime es (step getTime e s))"

text \<open>
  What can happen to the hook while no user is signed in: every event but the appearance of
  a user and the call of a function that a render with a user returned. And the events that
  are answers to requests.
\<close>

fun withoutUser :: "Event \<Rightarrow> bool" where
  "withoutUser (AuthChanged u) = (u = None)"
| "withoutUser (CallPush usr yr) = (usr = None)"
| "withoutUser (CallPull usr yr) = (usr = None)"
| "withoutUser _ = True"

fun isAnswer :: "Event \<Rightarrow> bool" where
  "isAnswer (PullAnswered i r) = True"
| "isAnswer (PushAnswered i r) = True"
| "isAnswer _ = False"

text \<open>An upsert that carries at least one date cell; every other call passes.\<close>

fun nonEmptyUpsert :: "Call \<Rightarrow> bool" where
  "nonEmptyUpsert (Upsert u y m ts) = (m \<noteq> [])"
| "nonEmptyUpsert _ = True"

text \<open>The pending timeout, if there is one, is the debounce timer of a non-empty document.\<close>

definition safeTimers :: "Engine \<Rightarrow> bool" where
  "safeTimers s = (debounceOnly s \<and> (timers s = [] \<or> dateCells s \<noteq> []))"

subsection \<open>Concrete sessions\<close>

text \<open>
  The inputs of the test suite \<^verbatim>\<open>useCloudSync.test.ts\<close>: the user \<^verbatim>\<open>user-123\<close>, the year 2025, and
  documents of one, two and three coloured days.
\<close>

definition testUser :: string where
  "testUser = ''user-123''"

definition oneCell :: Cells where
  "oneCell = [(''2025-01-01'', ''red'')]"

definition twoCells :: Cells where
  "twoCells = [(''2025-01-01'', ''red''), (''2025-01-02'', ''blue'')]"

definition threeCells :: Cells where
  "threeCells = [(''2025-01-01'', ''red''), (''2025-01-02'', ''blue''), (''2025-01-03'', ''green'')]"

definition otherDeviceCells :: Cells where
  "otherDeviceCells = [(''2025-03-15'', ''green'')]"

definition editedCells :: Cells where
  "editedCells = [(''2025-03-15'', ''green''), (''2025-03-16'', ''red'')]"

text \<open>
  The hook rendered for the signed-in user with an empty document on a device that never
  synced, and the same after the pull of the mount effect found no row.
\<close>

definition freshMount :: Engine where
  "freshMount = mount True (Some testUser) 2025 [] None ''2025-06-01T11:59:00.000Z''"

definition hydrated :: Engine where
  "hydrated = step parseIso (PullAnswered 0 FetchNoRow) freshMount"

text \<open>
  The hydrated hook after one local edit whose debounced push the store has accepted; the push
  read the wall clock at noon.
\<close>

definition pushedOnce :: Engine where
  "pushedOnce =
     run parseIso
       [DocChanged oneCell, Advance 500 ''2025-06-01T12:00:00.000Z'', PushAnswered 1 UpsertOk]
       hydrated"

text \<open>The hook rendered with a document of one day, while the pull of the mount effect is in flight.\<close>

definition mountedWithOneCell :: Engine where
  "mountedWithOneCell = mount True (Some testUser) 2025 oneCell None ''2025-06-01T11:59:00.000Z''"

text \<open>
  A device whose local document is empty or not, and whose recorded timestamp is of June.
\<close>

definition clearedDevice :: Engine where
  "clearedDevice =
     mount True (Some testUser) 2025 [] (Some ''2025-06-01T00:00:00Z'') ''2025-06-02T00:00:00.000Z''"

definition syncedDevice :: Engine where
  "syncedDevice =
     mount True (Some testUser) 2025 oneCell (Some ''2025-06-01T00:00:00Z'')
       ''2025-06-02T00:00:00.000Z''"

text \<open>The hook rendered without a user, and the hook whose user signs out after a failed pull.\<close>

definition signedOut :: Engine where
  "signedOut = mount True None 2025 oneCell None ''2025-06-01T11:59:00.000Z''"

definition signedOutAfterError :: Engine where
  "signedOutAfterError =
     run parseIso [PullAnswered 0 FetchError, AuthChanged None] mountedWithOneCell"

text \<open>
  A device on which local storage cannot be used: the hydrated hook with a storage that
  throws, after a local edit whose debounced push the store has accepted.
\<close>

definition pushedWithoutStorage :: Engine where
  "pushedWithoutStorage =
     run parseIso
       [DocChanged oneCell, Advance 500 ''2025-06-01T12:00:00.000Z'', PushAnswered 1 UpsertOk]
       (hydrated\<lparr>storageGetThrows := True, storageSetThrows := True\<rparr>)"

text \<open>The change that the channel delivers for the push of noon, and one of another device.\<close>

definition echoRow :: Row where
  "echoRow = \<lparr>row_year = 2025, row_data = oneCell, row_updated_at = ''2025-06-01T12:00:00.000+00:00''\<rparr>"

definition otherDeviceRow :: Row where
  "otherDeviceRow =
     \<lparr>row_year = 2025, row_data = otherDeviceCells, row_updated_at = ''2025-06-01T12:30:00.000+00:00''\<rparr>"

text \<open>
  A change of another device arrives while a push is in flight; the host renders the document
  it carries; the push is accepted; the user edits the document; a second passes.
\<close>

definition remoteChangeDuringPush :: "Event list" where
  "remoteChangeDuringPush =
     [DocChanged oneCell, Advance 500 ''2025-06-01T12:00:00.000Z'',
      Notify otherDeviceRow, DocChanged otherDeviceCells,
      PushAnswered 1 UpsertOk,
      DocChanged editedCells, Advance 1000 ''2025-06-01T12:00:02.000Z'']"

text \<open>
  The year changes while the pull of the mount effect is in flight; that pull, now of the
  former year, is answered; the user edits the document; the debounce window passes. The pull
  for the new year is not answered.
\<close>

definition yearChangeDuringPull :: "Event list" where
  "yearChangeDuringPull =
     [YearChanged 2026, PullAnswered 0 FetchNoRow,
      DocChanged twoCells, Advance 500 ''2025-06-01T12:00:00.000Z'']"

section \<open>Properties\<close>

subsection \<open>Facts about the operations\<close>

lemmas model_defs =
  mount_def unmounted_def step_def commitKeyChange_def commitDocChange_def autoPushEffect_def
  autoPushCleanupRun_def realtimeEffect_def realtimeCleanup_def pullEffect_def pullFromCloud_def
  pushToCloud_def pushResolved_def pullResolved_def cloudWins_def onChange_def sameInstant_def
  getSyncTimestamp_def setSyncTimestamp_def setDateCells_def await_def isEnabled_def
  clearTimeout_def advance_def DEBOUNCE_MS_def Let_def

lemmas data_defs =
  testUser_def oneCell_def twoCells_def threeCells_def otherDeviceCells_def editedCells_def
  echoRow_def otherDeviceRow_def

lemma run_append: "run g (xs @ ys) s = run g ys (run g xs s)"
  by (induction xs arbitrary: s) simp_all

lemma upserts_calls: "calls s' = calls s \<Longrightarrow> upserts s' = upserts s"
  by (simp add: upserts_def)

lemma debounceOnly_eq:
  "timers s' = timers s \<Longrightarrow> autoPushCleanup s' = autoPushCleanup s
   \<Longrightarrow> debounceTimerRef s' = debounceTimerRef s \<Longrightarrow> debounceOnly s' = debounceOnly s"
  by (simp add: debounceOnly_def)

lemma safeTimers_eq:
  "timers s' = timers s \<Longrightarrow> autoPushCleanup s' = autoPushCleanup s
   \<Longrightarrow> debounceTimerRef s' = debounceTimerRef s \<Longrightarrow> dateCells s' = dateCells s
   \<Longrightarrow> safeTimers s' = safeTimers s"
  by (simp add: safeTimers_def debounceOnly_def)

lemma fireTimers_nil: "timers s = [] \<Longrightarrow> fireTimers xs s = s"
  by (induction xs arbitrary: s) simp_all

text \<open>The cleanup of the auto-push effect.\<close>

lemma cleanup_clears:
  assumes "debounceOnly s"
  shows "timers (autoPushCleanupRun s) = []"
  using assms
  by (auto simp: debounceOnly_def autoPushCleanupRun_def clearTimeout_def
           split: if_splits option.splits)

lemma cleanup_no_timers: "timers s = [] \<Longrightarrow> timers (autoPushCleanupRun s) = []"
  by (simp add: autoPushCleanupRun_def clearTimeout_def split: option.splits)

lemma cleanup_fields:
  "calls (autoPushCleanupRun s) = calls s"
  "user (autoPushCleanupRun s) = user s"
  "supabase (autoPushCleanupRun s) = supabase s"
  "year (autoPushCleanupRun s) = year s"
  "clock (autoPushCleanupRun s) = clock s"
  "dateCells (autoPushCleanupRun s) = dateCells s"
  "initialPullDoneRef (autoPushCleanupRun s) = initialPullDoneRef s"
  "isPushingRef (autoPushCleanupRun s) = isPushingRef s"
  "isFromRealtimeRef (autoPushCleanupRun s) = isFromRealtimeRef s"
  "nextTimer (autoPushCleanupRun s) = nextTimer s"
  "isEnabled (autoPushCleanupRun s) = isEnabled s"
  by (simp_all add: autoPushCleanupRun_def clearTimeout_def isEnabled_def split: option.splits)

text \<open>The effects that run when the user or the year changed.\<close>

lemma realtimeCleanup_fields:
  "timers (realtimeCleanup s) = timers s"
  "initialPullDoneRef (realtimeCleanup s) = initialPullDoneRef s"
  "upserts (realtimeCleanup s) = upserts s"
  "storeCalls (realtimeCleanup s) = storeCalls s"
  "user (realtimeCleanup s) = user s"
  "supabase (realtimeCleanup s) = supabase s"
  "autoPushCleanup (realtimeCleanup s) = autoPushCleanup s"
  "debounceTimerRef (realtimeCleanup s) = debounceTimerRef s"
  "dateCells (realtimeCleanup s) = dateCells s"
  by (simp_all add: realtimeCleanup_def upserts_def storeCalls_def split: option.splits)

lemma pullEffect_fields:
  "timers (pullEffect s) = timers s"
  "upserts (pullEffect s) = upserts s"
  "initialPullDoneRef (pullEffect s) = (if isEnabled s then False else initialPullDoneRef s)"
  "user (pullEffect s) = user s"
  "supabase (pullEffect s) = supabase s"
  by (auto simp: pullEffect_def pullFromCloud_def await_def isEnabled_def upserts_def
           split: option.splits)

lemma realtimeEffect_fields:
  "timers (realtimeEffect s) = timers s"
  "upserts (realtimeEffect s) = upserts s"
  "initialPullDoneRef (realtimeEffect s) = initialPullDoneRef s"
  "user (realtimeEffect s) = user s"
  "supabase (realtimeEffect s) = supabase s"
  by (simp_all add: realtimeEffect_def Let_def upserts_def split: option.splits)

lemma autoPushEffect_unhydrated: "\<not> initialPullDoneRef s \<Longrightarrow> autoPushEffect s = s"
  by (simp add: autoPushEffect_def)

lemma autoPushEffect_disabled: "\<not> isEnabled s \<Longrightarrow> autoPushEffect s = s"
  by (simp add: autoPushEffect_def)

lemma autoPushEffect_calls: "calls (autoPushEffect s) = calls s"
  by (simp add: autoPushEffect_def Let_def clearTimeout_def split: option.splits)

text \<open>
  After a change of the user or of the year no timeout is pending and no upsert was made: the
  cleanup cleared the debounce timer, and the auto-push effect ran while sync was disabled or
  the flag of the initial pull was reset.
\<close>

lemma commitKeyChange_quiet:
  assumes "debounceOnly s"
  shows "timers (commitKeyChange s) = []"
    and "upserts (commitKeyChange s) = upserts s"
    and "isEnabled (commitKeyChange s) \<longrightarrow> \<not> initialPullDoneRef (commitKeyChange s)"
proof -
  let ?s0 = "autoPushCleanupRun (realtimeCleanup s)"
  let ?s1 = "realtimeEffect (pullEffect ?s0)"
  have "debounceOnly (realtimeCleanup s) = debounceOnly s"
    by (rule debounceOnly_eq) (simp_all add: realtimeCleanup_fields)
  then have "timers ?s0 = []" using assms by (simp add: cleanup_clears)
  then have t: "timers ?s1 = []" by (simp add: realtimeEffect_fields pullEffect_fields)
  have en: "isEnabled ?s1 = isEnabled ?s0"
    by (simp add: isEnabled_def realtimeEffect_fields pullEffect_fields)
  have f: "isEnabled ?s1 \<longrightarrow> \<not> initialPullDoneRef ?s1"
    using en by (simp add: realtimeEffect_fields pullEffect_fields)
  have e: "commitKeyChange s = ?s1"
    unfolding commitKeyChange_def
    using f autoPushEffect_unhydrated [of ?s1] autoPushEffect_disabled [of ?s1] by blast
  have u: "upserts ?s1 = upserts s"
    by (simp add: realtimeEffect_fields pullEffect_fields realtimeCleanup_fields
                  upserts_calls [OF cleanup_fields(1)])
  show "timers (commitKeyChange s) = []" using e t by simp
  show "upserts (commitKeyChange s) = upserts s" using e u by simp
  show "isEnabled (commitKeyChange s) \<longrightarrow> \<not> initialPullDoneRef (commitKeyChange s)"
    using e f by simp
qed

lemma commitKeyChange_unhydrated:
  assumes "\<not> initialPullDoneRef s" and "timers s = []"
  shows "\<not> initialPullDoneRef (commitKeyChange s)"
    and "timers (commitKeyChange s) = []"
    and "upserts (commitKeyChange s) = upserts s"
proof -
  let ?s1 = "realtimeEffect (pullEffect (autoPushCleanupRun (realtimeCleanup s)))"
  have f: "\<not> initialPullDoneRef ?s1"
    using assms(1)
    by (simp add: realtimeEffect_fields pullEffect_fields cleanup_fields realtimeCleanup_fields)
  have t: "timers ?s1 = []"
    using assms(2)
    by (simp add: realtimeEffect_fields pullEffect_fields cleanup_no_timers
                  realtimeCleanup_fields)
  have u: "upserts ?s1 = upserts s"
    by (simp add: realtimeEffect_fields pullEffect_fields realtimeCleanup_fields
                  upserts_calls [OF cleanup_fields(1)])
  have e: "commitKeyChange s = ?s1"
    unfolding commitKeyChange_def using f by (rule autoPushEffect_unhydrated)
  show "\<not> initialPullDoneRef (commitKeyChange s)" using e f by simp
  show "timers (commitKeyChange s) = []" using e t by simp
  show "upserts (commitKeyChange s) = upserts s" using e u by simp
qed

subsection \<open>The test suite\<close>

text \<open>
  The model answers the cases of \<^verbatim>\<open>useCloudSync.test.ts\<close> as the tests expect. On mount the hook
  queries the store and subscribes; it shows \<^verbatim>\<open>pulling\<close> until the answer and \<^verbatim>\<open>idle\<close> or
  \<^verbatim>\<open>error\<close> after it; a fetched document is applied to an empty local one, and to a local one
  with an older timestamp, and not to a local one with the same timestamp.
\<close>

lemma test_initial_pull:
  "calls freshMount = [Fetch testUser 2025, Subscribe 2025 1 testUser]"
  "syncStatus freshMount = Pulling"
  "syncStatus hydrated = Idle"
  "syncStatus (step parseIso (PullAnswered 0 FetchError) freshMount) = Error"
  "calls (step parseIso (PullAnswered 0 (FetchRow oneCell ''2025-06-01T00:00:00Z'')) freshMount)
     = calls freshMount @ [SetDateCells oneCell]"
  "calls (step parseIso (PullAnswered 0 (FetchRow oneCell ''2025-06-01T00:00:00Z''))
            (mount True (Some testUser) 2025 [(''2025-01-01'', ''blue'')]
               (Some ''2025-01-01T00:00:00Z'') ''2025-06-02T00:00:00.000Z''))
     = [Fetch testUser 2025, Subscribe 2025 1 testUser, SetDateCells oneCell]"
  "calls (step parseIso (PullAnswered 0 (FetchRow oneCell ''2025-06-01T00:00:00Z''))
            (mount True (Some testUser) 2025 [(''2025-01-01'', ''blue'')]
               (Some ''2025-06-01T00:00:00Z'') ''2025-06-02T00:00:00.000Z''))
     = [Fetch testUser 2025, Subscribe 2025 1 testUser]"
  by (simp_all add: hydrated_def freshMount_def model_defs data_defs)

text \<open>
  An empty document is not pushed by the effect, nothing is pushed before the initial pull is
  answered, and a change of the document after it is pushed once the window has passed; a
  push that the store refuses ends in \<^verbatim>\<open>error\<close>.
\<close>

lemma test_auto_push:
  "upserts (step parseIso (Advance 1000 ''2025-06-01T12:00:00.000Z'') hydrated) = []"
  "upserts (step parseIso (Advance 1000 ''2025-06-01T12:00:00.000Z'') mountedWithOneCell) = []"
  "upserts (run parseIso [DocChanged oneCell, Advance 600 ''2025-06-01T12:00:00.000Z''] hydrated)
     = [Upsert testUser 2025 oneCell ''2025-06-01T12:00:00.000Z'']"
  "syncStatus (run parseIso [DocChanged oneCell, Advance 600 ''2025-06-01T12:00:00.000Z'',
                             PushAnswered 1 UpsertError] hydrated) = Error"
  by (simp_all add: hydrated_def freshMount_def mountedWithOneCell_def upserts_def model_defs
                    data_defs)

text \<open>
  A change of the year removes the channel and subscribes a new one with a greater suffix.
  Notifications of another year and notifications without date cells are ignored, those of
  another device are applied. The document that a notification brought is not pushed back;
  an edit that the user makes afterwards is.
\<close>

lemma test_realtime:
  "calls (step parseIso (YearChanged 2026) hydrated)
     = calls hydrated @ [RemoveChannel 2025 1, Fetch testUser 2026, Subscribe 2026 2 testUser]"
  "step parseIso (Notify (otherDeviceRow\<lparr>row_year := 2024\<rparr>)) hydrated = hydrated"
  "step parseIso (Notify (otherDeviceRow\<lparr>row_data := []\<rparr>)) hydrated = hydrated"
  "calls (step parseIso (Notify otherDeviceRow) hydrated)
     = calls hydrated @ [SetDateCells otherDeviceCells]"
  "upserts (run parseIso [Notify otherDeviceRow, DocChanged otherDeviceCells,
                          Advance 1000 ''2025-06-01T12:31:00.000Z''] hydrated) = []"
  "upserts (run parseIso [Notify otherDeviceRow, DocChanged otherDeviceCells,
                          Advance 600 ''2025-06-01T12:31:00.000Z'',
                          DocChanged editedCells, Advance 600 ''2025-06-01T12:32:00.000Z'']
              hydrated)
     = [Upsert testUser 2025 editedCells ''2025-06-01T12:32:00.000Z'']"
  by (simp_all add: hydrated_def freshMount_def upserts_def model_defs data_defs)

subsection \<open>The recorded timestamp after a pull and after a push\<close>




subsection \<open>A pull that finds nothing\<close>

text \<open>
  Claim C3. Whatever the local document is, a pull that is answered with no row, or with a row
  whose \<^verbatim>\<open>data\<close> has no date key, does not call \<^verbatim>\<open>setDateCells\<close>: the calls made and the
  document of the hook are the same before and after the answer, and so is the recorded
  timestamp.
\<close>

theorem pull_of_nothing_keeps_document:
  assumes "r = FetchNoRow \<or> (\<exists>ts. r = FetchRow [] ts)"
  shows "calls (pullResolved r s) = calls s
       \<and> storageItem (pullResolved r s) = storageItem s
       \<and> calls (step getTime (PullAnswered i r) s) = calls s
       \<and> dateCells (step getTime (PullAnswered i r) s) = dateCells s"
  using assms
  by (auto simp: pullResolved_def step_def Let_def split: option.splits Request.splits)

theorem pull_of_nothing_keeps_document_witness:
  "calls (step parseIso (PullAnswered 0 (FetchRow [] ''2025-07-01T00:00:00Z'')) syncedDevice)
     = calls syncedDevice
   \<and> dateCells (step parseIso (PullAnswered 0 (FetchRow [] ''2025-07-01T00:00:00Z'')) syncedDevice)
     = oneCell
   \<and> map_of (inflight syncedDevice) 0 = Some (PullRequest True)"
proof -
  have d: "dateCells syncedDevice = oneCell"
    "map_of (inflight syncedDevice) 0 = Some (PullRequest True)"
    by (simp_all add: syncedDevice_def model_defs)
  show ?thesis
    using pull_of_nothing_keeps_document
            [of "FetchRow [] ''2025-07-01T00:00:00Z''" syncedDevice parseIso 0] d
    by simp
qed

subsection \<open>Newer wins\<close>

text \<open>
  Claim C4 says that a fetched, non-empty document whose \<^verbatim>\<open>updated_at\<close> is not greater than the
  recorded timestamp is not applied. On a device whose local document is empty it is
  applied: the timestamp of June is recorded, the row is of January, and the pull calls
  \<^verbatim>\<open>setDateCells\<close> with the row's cells and records the timestamp of January.
\<close>

theorem older_remote_applied_to_empty_local_counterexample:
  "getSyncTimestamp clearedDevice = Some ''2025-06-01T00:00:00Z''
   \<and> ''2025-01-01T00:00:00Z'' \<le> ''2025-06-01T00:00:00Z''
   \<and> calls (step parseIso (PullAnswered 0 (FetchRow oneCell ''2025-01-01T00:00:00Z'')) clearedDevice)
       = calls clearedDevice @ [SetDateCells oneCell]
   \<and> storageItem (step parseIso (PullAnswered 0 (FetchRow oneCell ''2025-01-01T00:00:00Z'')) clearedDevice)
       = Some ''2025-01-01T00:00:00Z''"
  by (simp add: clearedDevice_def model_defs data_defs)

text \<open>
  Claim C4, amended. For every recorded timestamp \<open>T\<close> (read from local storage, and not the
  empty string) and every fetched document with at least one date key: if its \<^verbatim>\<open>updated_at\<close>
  is greater than \<open>T\<close> as a string, the pull applies it; if its \<^verbatim>\<open>updated_at\<close> is at most \<open>T\<close>
  and the local document is not empty, the pull does not apply it.
\<close>

theorem newer_wins_for_nonempty_local:
  assumes "getSyncTimestamp s = Some T" and "T \<noteq> []" and "cloudEntries \<noteq> []"
  shows "(T < updatedAt \<longrightarrow>
            calls (pullResolved (FetchRow cloudEntries updatedAt) s)
              = calls s @ [SetDateCells cloudEntries])
       \<and> (updatedAt \<le> T \<and> dateCells s \<noteq> [] \<longrightarrow>
            calls (pullResolved (FetchRow cloudEntries updatedAt) s) = calls s)"
  using assms
  by (auto simp: pullResolved_def cloudWins_def setSyncTimestamp_def setDateCells_def)

theorem newer_wins_for_nonempty_local_witness:
  "calls (pullResolved (FetchRow twoCells ''2025-07-01T00:00:00Z'') syncedDevice)
     = calls syncedDevice @ [SetDateCells twoCells]
   \<and> calls (pullResolved (FetchRow twoCells ''2025-06-01T00:00:00Z'') syncedDevice)
     = calls syncedDevice"
proof -
  have h: "getSyncTimestamp syncedDevice = Some ''2025-06-01T00:00:00Z''"
    "''2025-06-01T00:00:00Z'' \<noteq> ([] :: string)" "twoCells \<noteq> []"
    "dateCells syncedDevice \<noteq> []"
    by (simp_all add: syncedDevice_def model_defs data_defs)
  have o: "''2025-06-01T00:00:00Z'' < ''2025-07-01T00:00:00Z''"
    "''2025-06-01T00:00:00Z'' \<le> ''2025-06-01T00:00:00Z''"
    by simp_all
  show ?thesis
    using newer_wins_for_nonempty_local [OF h(1,2,3), of "''2025-07-01T00:00:00Z''"]
      newer_wins_for_nonempty_local [OF h(1,2,3), of "''2025-06-01T00:00:00Z''"] h(4) o
    by blast
qed

subsection \<open>The realtime handler\<close>

text \<open>
  Claim C5. If the \<^verbatim>\<open>updated_at\<close> of a change notification and the recorded timestamp denote
  the same instant (\<^verbatim>\<open>getTime\<close> gives the same number for both), then the handler changes
  nothing, whatever the two strings look like: it does not call \<^verbatim>\<open>setDateCells\<close> and it
  records no timestamp.
\<close>

theorem echo_suppression:
  assumes "getSyncTimestamp s = Some T" and "T \<noteq> []"
      and "getTime (row_updated_at row) = Some t" and "getTime T = Some t"
  shows "onChange getTime yr row s = s \<and> step getTime (Notify row) s = s"
  using assms by (simp add: onChange_def sameInstant_def step_def split: option.splits)

theorem echo_suppression_witness:
  "getSyncTimestamp pushedOnce = Some ''2025-06-01T12:00:00.000Z''
   \<and> row_updated_at echoRow = ''2025-06-01T12:00:00.000+00:00''
   \<and> channel pushedOnce = Some (2025, 1)
   \<and> step parseIso (Notify echoRow) pushedOnce = pushedOnce"
proof -
  have p: "parseIso (row_updated_at echoRow) = Some 1748779200000"
    "parseIso ''2025-06-01T12:00:00.000Z'' = Some 1748779200000"
    unfolding echoRow_def by simp_all code_simp+
  have g: "getSyncTimestamp pushedOnce = Some ''2025-06-01T12:00:00.000Z''"
    "channel pushedOnce = Some (2025, 1)"
    by (simp_all add: pushedOnce_def hydrated_def freshMount_def model_defs data_defs)
  have n: "''2025-06-01T12:00:00.000Z'' \<noteq> ([] :: string)" by simp
  show ?thesis
    using echo_suppression [OF g(1) n p, of 2025] g by (simp add: echoRow_def)
qed

text \<open>
  Claim C10. If no timestamp is read from local storage (none was ever written, or reading
  throws), the handler applies every change notification of its year that has at least one
  date key, the echo of the device's own push included: it marks the next change of the
  document as coming from the channel, calls \<^verbatim>\<open>setDateCells\<close> with the cells of the
  notification, and writes the notification's \<^verbatim>\<open>updated_at\<close> to local storage, where it is
  recorded unless the write throws.
\<close>

theorem unrecorded_timestamp_applies_notification:
  assumes "getSyncTimestamp s = None" and "row_year row = yr" and "row_data row \<noteq> []"
  shows "onChange getTime yr row s
           = setSyncTimestamp (row_updated_at row)
               (setDateCells (row_data row) (s\<lparr>isFromRealtimeRef := True\<rparr>))
       \<and> calls (onChange getTime yr row s) = calls s @ [SetDateCells (row_data row)]
       \<and> (\<not> storageSetThrows s \<longrightarrow>
            storageItem (onChange getTime yr row s) = Some (row_updated_at row))
       \<and> (channel s = Some (yr, n) \<longrightarrow>
            step getTime (Notify row) s = onChange getTime yr row s)"
  using assms by (simp add: onChange_def setSyncTimestamp_def setDateCells_def step_def)

theorem unrecorded_timestamp_applies_notification_witness:
  "calls (onChange parseIso 2025 echoRow pushedWithoutStorage)
     = calls pushedWithoutStorage @ [SetDateCells oneCell]
   \<and> calls (onChange parseIso 2025 otherDeviceRow hydrated)
     = calls hydrated @ [SetDateCells otherDeviceCells]
   \<and> storageItem (onChange parseIso 2025 otherDeviceRow hydrated)
     = Some ''2025-06-01T12:30:00.000+00:00''"
proof -
  have a: "getSyncTimestamp pushedWithoutStorage = None" "row_year echoRow = 2025"
    "row_data echoRow \<noteq> []"
    by (simp_all add: pushedWithoutStorage_def hydrated_def freshMount_def model_defs data_defs)
  have b: "getSyncTimestamp hydrated = None" "row_year otherDeviceRow = 2025"
    "row_data otherDeviceRow \<noteq> []" "\<not> storageSetThrows hydrated"
    by (simp_all add: hydrated_def freshMount_def model_defs data_defs)
  show ?thesis
    using unrecorded_timestamp_applies_notification [OF a, of parseIso, THEN conjunct2]
      unrecorded_timestamp_applies_notification [OF b(1,2,3), of parseIso, THEN conjunct2] b(4)
    by (simp add: echoRow_def otherDeviceRow_def)
qed

subsection \<open>Debounce\<close>

lemma docChanged_ready:
  assumes "ready s" and "c \<noteq> []"
  shows "pending (step g (DocChanged c) s) c (clock s + DEBOUNCE_MS)"
    and "calls (step g (DocChanged c) s) = calls s"
    and "clock (step g (DocChanged c) s) = clock s"
    and "user (step g (DocChanged c) s) = user s"
    and "year (step g (DocChanged c) s) = year s"
proof -
  let ?s0 = "s\<lparr>dateCells := c\<rparr>"
  let ?s1 = "autoPushCleanupRun ?s0"
  have d0: "debounceOnly ?s0" using assms(1) by (simp add: ready_def debounceOnly_def)
  have t1: "timers ?s1 = []" by (rule cleanup_clears [OF d0])
  have en: "isEnabled ?s1" "initialPullDoneRef ?s1" "\<not> isPushingRef ?s1"
    "\<not> isFromRealtimeRef ?s1" "dateCells ?s1 \<noteq> []"
    using assms by (simp_all add: cleanup_fields ready_def isEnabled_def)
  have st: "step g (DocChanged c) s = autoPushEffect ?s1"
    by (simp add: step_def commitDocChange_def)
  show "pending (step g (DocChanged c) s) c (clock s + DEBOUNCE_MS)"
    unfolding st using en t1
    by (simp add: autoPushEffect_def pending_def Let_def clearTimeout_def cleanup_fields
                  isEnabled_def split: option.splits)
  show "calls (step g (DocChanged c) s) = calls s"
    unfolding st by (simp add: autoPushEffect_calls cleanup_fields)
  show "clock (step g (DocChanged c) s) = clock s"
    unfolding st using en
    by (simp add: autoPushEffect_def Let_def clearTimeout_def cleanup_fields split: option.splits)
  show "user (step g (DocChanged c) s) = user s"
    unfolding st using en
    by (simp add: autoPushEffect_def Let_def clearTimeout_def cleanup_fields split: option.splits)
  show "year (step g (DocChanged c) s) = year s"
    unfolding st using en
    by (simp add: autoPushEffect_def Let_def clearTimeout_def cleanup_fields split: option.splits)
qed

lemma pending_ready: "pending s c d \<Longrightarrow> ready s"
  by (auto simp: pending_def ready_def debounceOnly_def split: option.splits)

lemma advance_early:
  assumes "pending s c d" and "clock s + dt < d"
  shows "pending (step g (Advance dt w) s) c d"
    and "calls (step g (Advance dt w) s) = calls s"
    and "clock (step g (Advance dt w) s) = clock s + dt"
    and "user (step g (Advance dt w) s) = user s"
    and "year (step g (Advance dt w) s) = year s"
  using assms
  by (auto simp: step_def advance_def pending_def isEnabled_def split: option.splits)

lemma advance_due:
  assumes "pending s c d" and "d \<le> clock s + dt" and "user s = Some u"
  shows "calls (step g (Advance dt w) s) = calls s @ [Upsert u (year s) c w]"
    and "timers (step g (Advance dt w) s) = []"
  using assms
  by (auto simp: step_def advance_def pending_def isEnabled_def pushToCloud_def await_def Let_def
           split: option.splits)

lemma burst_pending:
  assumes "ready s" and "c \<noteq> []"
      and "\<forall>x \<in> set rest. fst x < DEBOUNCE_MS \<and> snd (snd x) \<noteq> []"
  shows "pending (run g (burst c rest) s) (last (c # map (\<lambda>x. snd (snd x)) rest))
           (clock (run g (burst c rest) s) + DEBOUNCE_MS)
       \<and> calls (run g (burst c rest) s) = calls s
       \<and> user (run g (burst c rest) s) = user s
       \<and> year (run g (burst c rest) s) = year s"
  using assms
proof (induction rest arbitrary: s c)
  case Nil
  then show ?case by (simp add: docChanged_ready)
next
  case (Cons x rest)
  let ?s1 = "step g (DocChanged c) s"
  let ?s2 = "step g (Advance (fst x) (fst (snd x))) ?s1"
  have p1: "pending ?s1 c (clock ?s1 + DEBOUNCE_MS)"
    using docChanged_ready [OF Cons.prems(1,2)] by simp
  have early: "clock ?s1 + fst x < clock ?s1 + DEBOUNCE_MS" using Cons.prems(3) by simp
  have r2: "ready ?s2" using advance_early(1) [OF p1 early] by (rule pending_ready)
  have k: "calls ?s2 = calls s" "user ?s2 = user s" "year ?s2 = year s"
    using advance_early(2,4,5) [OF p1 early] docChanged_ready(2,4,5) [OF Cons.prems(1,2)]
    by simp_all
  have "snd (snd x) \<noteq> []" "\<forall>x \<in> set rest. fst x < DEBOUNCE_MS \<and> snd (snd x) \<noteq> []"
    using Cons.prems(3) by simp_all
  from Cons.IH [OF r2 this] k show ?case by simp
qed

text \<open>
  Claim C6. Take a state in which sync is enabled, the initial pull is done, no push is in
  flight, the next change is not marked as coming from the channel, and no timeout other than
  the debounce timer is pending. Let the document change \<open>N \<ge> 1\<close> times, every time to a
  document that is not empty and every time less than the debounce window after the change
  before, and let the window pass after the last change. Then exactly one call is made, an
  upsert, and it carries the document of the last change; no timeout is left pending.
\<close>

theorem debounce_coalescing:
  assumes "ready s" and "user s = Some u" and "c \<noteq> []"
      and "\<forall>x \<in> set rest. fst x < DEBOUNCE_MS \<and> snd (snd x) \<noteq> []"
      and "DEBOUNCE_MS \<le> dt"
  shows "calls (run g (burst c rest @ [Advance dt now]) s)
           = calls s @ [Upsert u (year s) (last (c # map (\<lambda>x. snd (snd x)) rest)) now]
       \<and> timers (run g (burst c rest @ [Advance dt now]) s) = []"
proof -
  let ?s1 = "run g (burst c rest) s"
  note b = burst_pending [OF assms(1,3,4), of g]
  have due: "clock ?s1 + DEBOUNCE_MS \<le> clock ?s1 + dt" using assms(5) by simp
  have u: "user ?s1 = Some u" using b assms(2) by simp
  show ?thesis
    using advance_due [OF conjunct1 [OF b] due u, of g now] b
    by (simp add: run_append)
qed

theorem debounce_coalescing_witness:
  "calls (run parseIso
            [DocChanged oneCell, Advance 200 ''2025-06-01T12:00:00.200Z'',
             DocChanged twoCells, Advance 200 ''2025-06-01T12:00:00.400Z'',
             DocChanged threeCells, Advance 600 ''2025-06-01T12:00:01.000Z'']
            hydrated)
     = calls hydrated @ [Upsert testUser 2025 threeCells ''2025-06-01T12:00:01.000Z'']
   \<and> timers (run parseIso
            [DocChanged oneCell, Advance 200 ''2025-06-01T12:00:00.200Z'',
             DocChanged twoCells, Advance 200 ''2025-06-01T12:00:00.400Z'',
             DocChanged threeCells, Advance 600 ''2025-06-01T12:00:01.000Z'']
            hydrated) = []"
proof -
  have h: "ready hydrated" "user hydrated = Some testUser" "oneCell \<noteq> []" "year hydrated = 2025"
    by (simp_all add: ready_def debounceOnly_def hydrated_def freshMount_def model_defs data_defs)
  have r: "\<forall>x \<in> set [(200, ''2025-06-01T12:00:00.200Z'', twoCells),
                       (200, ''2025-06-01T12:00:00.400Z'', threeCells)].
             fst x < DEBOUNCE_MS \<and> snd (snd x) \<noteq> []"
    by (simp add: DEBOUNCE_MS_def data_defs)
  have d: "DEBOUNCE_MS \<le> 600" by (simp add: DEBOUNCE_MS_def)
  show ?thesis
    using debounce_coalescing [OF h(1,2,3) r d, of parseIso "''2025-06-01T12:00:01.000Z''"] h(4)
    by simp
qed

subsection \<open>Before the initial pull is answered\<close>

lemma step_unhydrated:
  assumes "\<not> initialPullDoneRef s" and "timers s = []" and "\<not> answersEffectPull s e"
  shows "\<not> initialPullDoneRef (step g e s) \<and> timers (step g e s) = []
       \<and> (\<not> isCallPush e \<longrightarrow> upserts (step g e s) = upserts s)"
proof (cases e)
  case (AuthChanged u)
  then show ?thesis
    using assms commitKeyChange_unhydrated [of "s\<lparr>user := u\<rparr>"]
    by (simp add: step_def upserts_def)
next
  case (YearChanged y)
  then show ?thesis
    using assms commitKeyChange_unhydrated [of "s\<lparr>year := y\<rparr>"]
    by (simp add: step_def upserts_def)
next
  case (DocChanged m)
  have "commitDocChange (s\<lparr>dateCells := m\<rparr>) = autoPushCleanupRun (s\<lparr>dateCells := m\<rparr>)"
    unfolding commitDocChange_def
    using assms(1) by (intro autoPushEffect_unhydrated) (simp add: cleanup_fields)
  then show ?thesis
    using DocChanged assms
    by (simp add: step_def cleanup_fields cleanup_no_timers upserts_def)
next
  case (CallPush usr yr)
  then show ?thesis
    using assms by (simp add: step_def pushToCloud_def await_def Let_def split: option.splits)
next
  case (CallPull usr yr)
  then show ?thesis
    using assms
    by (simp add: step_def pullFromCloud_def await_def upserts_def split: option.splits)
next
  case (PullAnswered i r)
  then show ?thesis
    using assms
    by (auto simp: step_def pullResolved_def setSyncTimestamp_def setDateCells_def upserts_def
                   Let_def
             split: option.splits Request.splits FetchResult.splits)
next
  case (PushAnswered i r)
  then show ?thesis
    using assms
    by (auto simp: step_def pushResolved_def setSyncTimestamp_def upserts_def
             split: option.splits Request.splits UpsertResult.splits)
next
  case (Notify row)
  then show ?thesis
    using assms
    by (auto simp: step_def onChange_def setSyncTimestamp_def setDateCells_def upserts_def Let_def
             split: option.splits)
next
  case (Advance dt now)
  then show ?thesis
    using assms by (simp add: step_def advance_def fireTimers_nil upserts_def)
qed

text \<open>
  From the moment at which sync is enabled (the mount effect has reset the flag of the
  initial pull and started the pull, and no timeout is pending), and for as long as no pull
  that the mount effect ever started is answered, with success or with an error, nothing
  that happens to the hook makes it push: whatever the document changes to and however much
  time passes, no upsert is added to the calls and no timeout is pending. The answer to such
  a pull, whatever it is, sets the flag. (A push that the host asks for by calling
  \<^verbatim>\<open>pushToCloud\<close> itself is not meant.)
\<close>

lemma no_push_before_effect_pull_answer:
  assumes "\<not> initialPullDoneRef s" and "timers s = []" and "beforePullAnswer g es s"
  shows "upserts (run g es s) = upserts s \<and> timers (run g es s) = []
       \<and> \<not> initialPullDoneRef (run g es s)
       \<and> (map_of (inflight (run g es s)) i = Some (PullRequest True) \<longrightarrow>
            initialPullDoneRef (step g (PullAnswered i r) (run g es s)))"
proof -
  have "upserts (run g es s) = upserts s \<and> timers (run g es s) = []
        \<and> \<not> initialPullDoneRef (run g es s)"
    using assms
  proof (induction es arbitrary: s)
    case Nil
    then show ?case by simp
  next
    case (Cons e es)
    from Cons.prems have a: "\<not> answersEffectPull s e" and b: "\<not> isCallPush e"
      and c: "beforePullAnswer g es (step g e s)" by simp_all
    note st = step_unhydrated [OF Cons.prems(1,2) a, of g]
    from Cons.IH [of "step g e s"] st b c show ?case by simp
  qed
  moreover have "initialPullDoneRef (step g (PullAnswered i r) t)"
    if "map_of (inflight t) i = Some (PullRequest True)" for t
    using that by (simp add: step_def Let_def)
  ultimately show ?thesis by blast
qed

text \<open>
  Claim C8 says that a change of the document before the initial pull is answered never
  triggers or schedules a push. The source means the same: it keeps \<^verbatim>\<open>initialPullDoneRef\<close>
  ``to avoid the auto-push firing on data that just came from the cloud'', and the mount
  effect resets the flag whenever sync is enabled anew. The flag is one ref for all pulls,
  and the \<^verbatim>\<open>.then\<close> of a pull that the effect started earlier sets it as well. In the run below
  the year changes to 2026 while the pull for 2025 is in flight: the effect resets the flag
  and starts the pull for 2026; the answer to the pull for 2025 sets the flag; the next edit
  of the document sets the debounce timer, and after the window the hook upserts the document
  for 2026, while the pull for 2026 (request 1) is still not answered.
\<close>

theorem superseded_pull_opens_guard:
  "\<not> initialPullDoneRef (run parseIso (take 1 yearChangeDuringPull) mountedWithOneCell)
   \<and> inflight (run parseIso (take 1 yearChangeDuringPull) mountedWithOneCell)
       = [(0, PullRequest True), (1, PullRequest True)]
   \<and> initialPullDoneRef (run parseIso (take 2 yearChangeDuringPull) mountedWithOneCell)
   \<and> map handle (timers (run parseIso (take 3 yearChangeDuringPull) mountedWithOneCell)) = [1]
   \<and> map_of (inflight (run parseIso yearChangeDuringPull mountedWithOneCell)) 1
       = Some (PullRequest True)
   \<and> calls (run parseIso yearChangeDuringPull mountedWithOneCell)
       = [Fetch testUser 2025, Subscribe 2025 1 testUser, RemoveChannel 2025 1,
          Fetch testUser 2026, Subscribe 2026 2 testUser,
          Upsert testUser 2026 twoCells ''2025-06-01T12:00:00.000Z'']"
  by (simp add: yearChangeDuringPull_def mountedWithOneCell_def model_defs data_defs)

subsection \<open>Without a user\<close>

lemma commitKeyChange_signed_out:
  assumes "user s = None" and "timers s = []"
  shows "storeCalls (commitKeyChange s) = storeCalls s" and "user (commitKeyChange s) = None"
    and "timers (commitKeyChange s) = []" and "syncStatus (commitKeyChange s) = syncStatus s"
proof -
  let ?s1 = "autoPushCleanupRun (realtimeCleanup s)"
  have d: "\<not> isEnabled ?s1"
    using assms(1) by (simp add: isEnabled_def cleanup_fields realtimeCleanup_fields)
  have u: "user ?s1 = None"
    using assms(1) by (simp add: cleanup_fields realtimeCleanup_fields)
  have e: "commitKeyChange s = ?s1"
    unfolding commitKeyChange_def using d u
    by (simp add: pullEffect_def realtimeEffect_def autoPushEffect_def)
  have "storeCalls ?s1 = storeCalls (realtimeCleanup s)"
    by (simp add: storeCalls_def cleanup_fields)
  then show "storeCalls (commitKeyChange s) = storeCalls s"
    unfolding e by (simp add: realtimeCleanup_fields)
  show "user (commitKeyChange s) = None" unfolding e using u .
  show "timers (commitKeyChange s) = []"
    unfolding e using assms(2) by (simp add: cleanup_no_timers realtimeCleanup_fields)
  show "syncStatus (commitKeyChange s) = syncStatus s"
    unfolding e
    by (simp add: autoPushCleanupRun_def realtimeCleanup_def clearTimeout_def
             split: option.splits)
qed

lemma step_signed_out:
  assumes "user s = None" and "timers s = []" and "withoutUser e"
  shows "storeCalls (step g e s) = storeCalls s \<and> user (step g e s) = None
       \<and> timers (step g e s) = []
       \<and> (\<not> isAnswer e \<longrightarrow> syncStatus (step g e s) = syncStatus s)"
proof (cases e)
  case (AuthChanged u)
  with assms show ?thesis by (simp add: step_def)
next
  case (YearChanged y)
  then show ?thesis
    using assms commitKeyChange_signed_out [of "s\<lparr>year := y\<rparr>"]
    by (simp add: step_def storeCalls_def)
next
  case (DocChanged m)
  let ?s1 = "autoPushCleanupRun (s\<lparr>dateCells := m\<rparr>)"
  have "commitDocChange (s\<lparr>dateCells := m\<rparr>) = ?s1"
    unfolding commitDocChange_def
    using assms(1) by (intro autoPushEffect_disabled) (simp add: isEnabled_def cleanup_fields)
  moreover have "syncStatus ?s1 = syncStatus s"
    by (simp add: autoPushCleanupRun_def clearTimeout_def split: option.splits)
  ultimately show ?thesis
    using DocChanged assms
    by (simp add: step_def storeCalls_def cleanup_fields cleanup_no_timers)
next
  case (CallPush usr yr)
  with assms show ?thesis by (simp add: step_def pushToCloud_def)
next
  case (CallPull usr yr)
  with assms show ?thesis by (simp add: step_def pullFromCloud_def)
next
  case (PullAnswered i r)
  then show ?thesis
    using assms
    by (auto simp: step_def pullResolved_def setSyncTimestamp_def setDateCells_def storeCalls_def
                   Let_def
             split: option.splits Request.splits FetchResult.splits)
next
  case (PushAnswered i r)
  then show ?thesis
    using assms
    by (auto simp: step_def pushResolved_def setSyncTimestamp_def storeCalls_def
             split: option.splits Request.splits UpsertResult.splits)
next
  case (Notify row)
  then show ?thesis
    using assms
    by (auto simp: step_def onChange_def setSyncTimestamp_def setDateCells_def storeCalls_def
                   Let_def
             split: option.splits)
next
  case (Advance dt now)
  then show ?thesis
    using assms by (simp add: step_def advance_def fireTimers_nil storeCalls_def)
qed

text \<open>
  When the user signs out, and when the hook is mounted without a user, no timeout is left
  pending and no call to the store is made: the state from which the theorem below starts.
\<close>

lemma sign_out_quiet:
  assumes "debounceOnly s" and "user s \<noteq> None"
  shows "user (step g (AuthChanged None) s) = None"
    and "timers (step g (AuthChanged None) s) = []"
    and "storeCalls (step g (AuthChanged None) s) = storeCalls s"
proof -
  let ?s0 = "s\<lparr>user := None\<rparr>"
  let ?s1 = "autoPushCleanupRun (realtimeCleanup ?s0)"
  have d: "debounceOnly ?s0" using assms(1) by (simp add: debounceOnly_def)
  have n: "\<not> isEnabled ?s1" "user ?s1 = None"
    by (simp_all add: isEnabled_def cleanup_fields realtimeCleanup_fields)
  have e: "commitKeyChange ?s0 = ?s1"
    unfolding commitKeyChange_def using n
    by (simp add: pullEffect_def realtimeEffect_def autoPushEffect_def)
  have "step g (AuthChanged None) s = commitKeyChange ?s0"
    using assms(2) by (auto simp: step_def)
  then have st: "step g (AuthChanged None) s = ?s1" using e by simp
  have t: "timers ?s1 = []" using commitKeyChange_quiet(1) [OF d] e by simp
  have c: "storeCalls ?s1 = storeCalls s"
    using realtimeCleanup_fields(4) [of ?s0]
    by (simp add: storeCalls_def cleanup_fields)
  show "user (step g (AuthChanged None) s) = None" using st n by simp
  show "timers (step g (AuthChanged None) s) = []" using st t by simp
  show "storeCalls (step g (AuthChanged None) s) = storeCalls s" using st c by simp
qed

lemma mount_signed_out:
  "user (mount sb None y m ts now) = None"
  "timers (mount sb None y m ts now) = []"
  "storeCalls (mount sb None y m ts now) = []"
  by (simp_all add: storeCalls_def model_defs)

text \<open>
  Claim C9 says that without a user the phase of the hook is \<^verbatim>\<open>disabled\<close> and stays so. The
  type \<^verbatim>\<open>SyncStatus\<close> has no such member. The hook that is rendered without a user shows
  \<^verbatim>\<open>idle\<close>, and the hook whose user signs out after a failed pull keeps showing \<^verbatim>\<open>error\<close>.
  Nor does the phase stay what it is while there is no user: when the user signs out during
  the pull of the mount effect, the hook shows \<^verbatim>\<open>pulling\<close>, and the answer to the pull turns
  that into \<^verbatim>\<open>idle\<close>.
\<close>

theorem phase_without_user_counterexample:
  "user signedOut = None
   \<and> SyncStatus_literal (syncStatus signedOut) = ''idle''
   \<and> SyncStatus_literal (syncStatus signedOut) \<noteq> ''disabled''
   \<and> user signedOutAfterError = None
   \<and> SyncStatus_literal (syncStatus signedOutAfterError) = ''error''
   \<and> SyncStatus_literal (syncStatus signedOutAfterError) \<noteq> ''disabled''
   \<and> user (run parseIso [AuthChanged None] mountedWithOneCell) = None
   \<and> syncStatus (run parseIso [AuthChanged None] mountedWithOneCell) = Pulling
   \<and> user (run parseIso [AuthChanged None, PullAnswered 0 FetchNoRow] mountedWithOneCell) = None
   \<and> syncStatus (run parseIso [AuthChanged None, PullAnswered 0 FetchNoRow] mountedWithOneCell)
       = Idle"
  by (simp add: signedOut_def signedOutAfterError_def mountedWithOneCell_def model_defs data_defs)

text \<open>
  Claim C9, amended. From the moment at which the hook has no user (it is mounted without
  one, or the user has signed out: no timeout is pending then) and until a user appears, the
  hook makes no call to the remote store, no query, no upsert and no subscription, whatever
  else happens to it: renders with another year or document, calls of the \<^verbatim>\<open>pushToCloud\<close>
  and \<^verbatim>\<open>pullFromCloud\<close> that its renders return meanwhile, answers to earlier requests,
  notifications, and the passing of time. Those two calls return at once and leave the hook
  as it is. The phase has no value for this situation: none of these events changes it,
  except that the answer to a request that was made earlier sets it, to \<^verbatim>\<open>idle\<close> or to
  \<^verbatim>\<open>error\<close>, as it does with a user.
\<close>

theorem no_user_no_store_call:
  assumes "user s = None" and "timers s = []" and "\<forall>e \<in> set es. withoutUser e"
  shows "storeCalls (run g es s) = storeCalls s \<and> user (run g es s) = None
       \<and> ((\<forall>e \<in> set es. \<not> isAnswer e) \<longrightarrow> syncStatus (run g es s) = syncStatus s)
       \<and> step g (CallPush None yr) s = s \<and> step g (CallPull None yr) s = s"
proof -
  have "storeCalls (run g es s) = storeCalls s \<and> user (run g es s) = None
        \<and> timers (run g es s) = []
        \<and> ((\<forall>e \<in> set es. \<not> isAnswer e) \<longrightarrow> syncStatus (run g es s) = syncStatus s)"
    using assms
  proof (induction es arbitrary: s)
    case Nil
    then show ?case by simp
  next
    case (Cons e es)
    from Cons.prems(3) have w: "withoutUser e" and ws: "\<forall>e \<in> set es. withoutUser e"
      by simp_all
    note st = step_signed_out [OF Cons.prems(1,2) w, of g]
    from Cons.IH [of "step g e s"] st ws show ?case by simp
  qed
  moreover have "step g (CallPush None yr) s = s" "step g (CallPull None yr) s = s"
    by (simp_all add: step_def pushToCloud_def pullFromCloud_def)
  ultimately show ?thesis by simp
qed

theorem no_user_no_store_call_witness:
  "storeCalls (run parseIso
                 [DocChanged twoCells, Advance 1000 ''2025-06-01T12:00:00.000Z'',
                  CallPush None 2025, CallPull None 2025, YearChanged 2026,
                  Notify otherDeviceRow]
                 signedOut) = []
   \<and> syncStatus (run parseIso
                 [DocChanged twoCells, Advance 1000 ''2025-06-01T12:00:00.000Z'',
                  CallPush None 2025, CallPull None 2025, YearChanged 2026,
                  Notify otherDeviceRow]
                 signedOut) = Idle
   \<and> storeCalls (run parseIso [PullAnswered 0 FetchNoRow, DocChanged twoCells]
                   (step parseIso (AuthChanged None) mountedWithOneCell))
       = [Fetch testUser 2025, Subscribe 2025 1 testUser]"
proof -
  have h: "user signedOut = None" "timers signedOut = []" "storeCalls signedOut = []"
    "syncStatus signedOut = Idle"
    by (simp_all add: signedOut_def storeCalls_def model_defs data_defs)
  have e: "\<forall>e \<in> set [DocChanged twoCells, Advance 1000 ''2025-06-01T12:00:00.000Z'',
                       CallPush None 2025, CallPull None 2025, YearChanged 2026,
                       Notify otherDeviceRow]. withoutUser e"
          "\<forall>e \<in> set [DocChanged twoCells, Advance 1000 ''2025-06-01T12:00:00.000Z'',
                       CallPush None 2025, CallPull None 2025, YearChanged 2026,
                       Notify otherDeviceRow]. \<not> isAnswer e"
    by simp_all
  have k: "user (step parseIso (AuthChanged None) mountedWithOneCell) = None"
    "timers (step parseIso (AuthChanged None) mountedWithOneCell) = []"
    "storeCalls (step parseIso (AuthChanged None) mountedWithOneCell)
       = [Fetch testUser 2025, Subscribe 2025 1 testUser]"
    by (simp_all add: mountedWithOneCell_def storeCalls_def model_defs data_defs)
  have f: "\<forall>e \<in> set [PullAnswered 0 FetchNoRow, DocChanged twoCells]. withoutUser e"
    by simp
  show ?thesis
    using no_user_no_store_call [OF h(1,2) e(1), of parseIso] e(2) h(3,4)
      no_user_no_store_call [OF k(1,2) f, of parseIso] k(3)
    by simp
qed

text \<open>
  The theorem leaves out the functions that a render with a user returned. Such a function
  keeps its user: the host that still holds it and calls it after the user signed out makes
  the hook upsert.
\<close>

lemma stale_push_after_sign_out:
  "user (step parseIso (AuthChanged None) pushedOnce) = None"
  "calls (run parseIso [AuthChanged None, CallPush (Some testUser) 2025] pushedOnce)
     = calls pushedOnce
       @ [RemoveChannel 2025 1, Upsert testUser 2025 oneCell ''2025-06-01T12:00:00.000Z'']"
  by (simp_all add: pushedOnce_def hydrated_def freshMount_def model_defs data_defs)

subsection \<open>Changes that came from the channel\<close>

lemma applied_sets_flag:
  assumes "calls (step g (Notify row) s) = calls s @ [SetDateCells m]"
  shows "isFromRealtimeRef (step g (Notify row) s)"
    and "timers (step g (Notify row) s) = timers s"
    and "debounceTimerRef (step g (Notify row) s) = debounceTimerRef s"
    and "autoPushCleanup (step g (Notify row) s) = autoPushCleanup s"
  using assms
  by (auto simp: step_def onChange_def setSyncTimestamp_def setDateCells_def Let_def
           split: option.splits if_splits)

lemma flagged_render_schedules_nothing:
  assumes "isFromRealtimeRef s" and "debounceOnly s"
  shows "timers (step g (DocChanged m) s) = []"
    and "calls (step g (DocChanged m) s) = calls s"
proof -
  let ?s1 = "autoPushCleanupRun (s\<lparr>dateCells := m\<rparr>)"
  have d0: "debounceOnly (s\<lparr>dateCells := m\<rparr>)"
    using assms(2) by (simp add: debounceOnly_def)
  have t: "timers ?s1 = []" using d0 by (rule cleanup_clears)
  have f: "isFromRealtimeRef ?s1" using assms(1) by (simp add: cleanup_fields)
  show "timers (step g (DocChanged m) s) = []"
    using t f by (simp add: step_def commitDocChange_def autoPushEffect_def)
  show "calls (step g (DocChanged m) s) = calls s"
    by (simp add: step_def commitDocChange_def autoPushEffect_calls cleanup_fields)
qed

text \<open>
  In every state in which the only pending timeout is the debounce timer: when a notification
  is applied (the handler calls \<^verbatim>\<open>setDateCells\<close>), the host renders the document it was given,
  and time passes without another change of the document, then no upsert is made.
\<close>

lemma applied_notification_is_not_pushed:
  assumes "debounceOnly s"
      and "calls (step g (Notify row) s) = calls s @ [SetDateCells m]"
  shows "calls (run g [Notify row, DocChanged m, Advance dt now] s) = calls s @ [SetDateCells m]"
proof -
  let ?s1 = "step g (Notify row) s"
  let ?s2 = "step g (DocChanged m) ?s1"
  note a = applied_sets_flag [OF assms(2)]
  have "debounceOnly ?s1 = debounceOnly s" by (rule debounceOnly_eq) (simp_all add: a)
  then have d1: "debounceOnly ?s1" using assms(1) by simp
  note r = flagged_render_schedules_nothing [OF a(1) d1, of g m]
  have "step g (Advance dt now) ?s2 = ?s2\<lparr>clock := clock ?s2 + dt, wallClock := now\<rparr>"
    using r(1) by (simp add: step_def advance_def fireTimers_nil)
  then show ?thesis using r(2) assms(2) by simp
qed

text \<open>
  Claim C7 says that an applied notification, when no edit follows, leads to no upsert, which
  is the lemma above, and that the mark set by an applied notification suppresses exactly one
  run of the auto-push effect, the next one. The source says the same of \<^verbatim>\<open>isFromRealtimeRef\<close>
  (``the next dateCells change came from Realtime and should not auto-push''), and its test
  suite requires that a local change made after the channel's data was applied is pushed.
  The effect clears the mark only after its tests of \<^verbatim>\<open>initialPullDoneRef\<close> and
  \<^verbatim>\<open>isPushingRef\<close>. In the run below a change of another device is applied while a push is in
  flight: the render of that change returns at \<^verbatim>\<open>isPushingRef\<close> and leaves the mark set, and
  the mark then suppresses the run for the edit that the user makes after the push was
  accepted. That edit is never pushed: the only upsert of the run is the one of the first
  edit.
\<close>

theorem mark_outlives_render_during_push:
  "isFromRealtimeRef (run parseIso (take 4 remoteChangeDuringPush) hydrated)
   \<and> isFromRealtimeRef (run parseIso (take 5 remoteChangeDuringPush) hydrated)
   \<and> \<not> isPushingRef (run parseIso (take 5 remoteChangeDuringPush) hydrated)
   \<and> dateCells (run parseIso remoteChangeDuringPush hydrated) = editedCells
   \<and> timers (run parseIso (take 6 remoteChangeDuringPush) hydrated) = []
   \<and> calls (run parseIso remoteChangeDuringPush hydrated)
       = [Fetch testUser 2025, Subscribe 2025 1 testUser,
          Upsert testUser 2025 oneCell ''2025-06-01T12:00:00.000Z'',
          SetDateCells otherDeviceCells]"
  by (simp add: remoteChangeDuringPush_def hydrated_def freshMount_def model_defs data_defs)

subsection \<open>Pushing an empty document\<close>

text \<open>
  The debounced push never sends an empty document: the effect sets its timer only for a
  document that is not empty, every change of the document clears the timer before the
  effect runs again, and so the timer, when it fires, finds the document it was set for.
\<close>

lemma autoPushEffect_safe: "timers s = [] \<Longrightarrow> safeTimers (autoPushEffect s)"
  by (simp add: autoPushEffect_def safeTimers_def debounceOnly_def Let_def clearTimeout_def
           split: option.splits)

lemma advance_safe:
  assumes "safeTimers s"
  shows "safeTimers (advance dt now s)"
    and "list_all nonEmptyUpsert (upserts s) \<Longrightarrow> list_all nonEmptyUpsert (upserts (advance dt now s))"
proof -
  let ?s1 = "s\<lparr>clock := clock s + dt, wallClock := now\<rparr>"
  have both: "safeTimers (advance dt now s)
              \<and> (list_all nonEmptyUpsert (upserts s)
                  \<longrightarrow> list_all nonEmptyUpsert (upserts (advance dt now s)))"
  proof (cases "timers s = []")
    case True
    then have "advance dt now s = ?s1" by (simp add: advance_def fireTimers_nil)
    then show ?thesis using assms True by (simp add: safeTimers_def debounceOnly_def upserts_def)
  next
    case False
    with assms obtain x where x: "timers s = [x]" and c: "dateCells s \<noteq> []"
      by (auto simp: safeTimers_def debounceOnly_def map_eq_Cons_conv split: option.splits)
    show ?thesis
      using assms x c
      by (auto simp: advance_def safeTimers_def debounceOnly_def pushToCloud_def await_def
                     upserts_def Let_def
               split: option.splits)
  qed
  show "safeTimers (advance dt now s)" using both by simp
  show "list_all nonEmptyUpsert (upserts (advance dt now s))"
    if "list_all nonEmptyUpsert (upserts s)" using both that by simp
qed

lemma step_safe:
  assumes "safeTimers s"
  shows "safeTimers (step g e s)"
    and "\<not> isCallPush e \<Longrightarrow> list_all nonEmptyUpsert (upserts s)
         \<Longrightarrow> list_all nonEmptyUpsert (upserts (step g e s))"
proof -
  have both: "safeTimers (step g e s)
              \<and> (\<not> isCallPush e \<and> list_all nonEmptyUpsert (upserts s)
                  \<longrightarrow> list_all nonEmptyUpsert (upserts (step g e s)))"
  proof (cases e)
    case (AuthChanged u)
    have "debounceOnly (s\<lparr>user := u\<rparr>)"
      using assms by (simp add: safeTimers_def debounceOnly_def)
    from commitKeyChange_quiet(1,2) [OF this] show ?thesis
      using AuthChanged assms by (simp add: step_def safeTimers_def debounceOnly_def upserts_def)
  next
    case (YearChanged y)
    have "debounceOnly (s\<lparr>year := y\<rparr>)"
      using assms by (simp add: safeTimers_def debounceOnly_def)
    from commitKeyChange_quiet(1,2) [OF this] show ?thesis
      using YearChanged assms by (simp add: step_def safeTimers_def debounceOnly_def upserts_def)
  next
    case (DocChanged m)
    have "debounceOnly (s\<lparr>dateCells := m\<rparr>)"
      using assms by (simp add: safeTimers_def debounceOnly_def)
    then have "timers (autoPushCleanupRun (s\<lparr>dateCells := m\<rparr>)) = []" by (rule cleanup_clears)
    then have "safeTimers (step g (DocChanged m) s)"
      by (simp add: step_def commitDocChange_def autoPushEffect_safe)
    moreover have "upserts (step g (DocChanged m) s) = upserts s"
      by (simp add: step_def commitDocChange_def upserts_def autoPushEffect_calls cleanup_fields)
    ultimately show ?thesis using DocChanged by simp
  next
    case (CallPush usr yr)
    have "safeTimers (step g (CallPush usr yr) s) = safeTimers s"
      by (rule safeTimers_eq)
         (simp_all add: step_def pushToCloud_def await_def Let_def split: option.splits)
    then show ?thesis using CallPush assms by simp
  next
    case (CallPull usr yr)
    have "safeTimers (step g (CallPull usr yr) s) = safeTimers s"
      by (rule safeTimers_eq)
         (simp_all add: step_def pullFromCloud_def await_def split: option.splits)
    moreover have "upserts (step g (CallPull usr yr) s) = upserts s"
      by (simp add: step_def pullFromCloud_def await_def upserts_def split: option.splits)
    ultimately show ?thesis using CallPull assms by simp
  next
    case (PullAnswered i r)
    have "safeTimers (step g (PullAnswered i r) s) = safeTimers s"
      by (rule safeTimers_eq)
         (auto simp: step_def pullResolved_def setSyncTimestamp_def setDateCells_def Let_def
               split: option.splits Request.splits FetchResult.splits)
    moreover have "upserts (step g (PullAnswered i r) s) = upserts s"
      by (auto simp: step_def pullResolved_def setSyncTimestamp_def setDateCells_def Let_def
                     upserts_def
               split: option.splits Request.splits FetchResult.splits)
    ultimately show ?thesis using PullAnswered assms by simp
  next
    case (PushAnswered i r)
    have "safeTimers (step g (PushAnswered i r) s) = safeTimers s"
      by (rule safeTimers_eq)
         (auto simp: step_def pushResolved_def setSyncTimestamp_def
               split: option.splits Request.splits UpsertResult.splits)
    moreover have "upserts (step g (PushAnswered i r) s) = upserts s"
      by (auto simp: step_def pushResolved_def setSyncTimestamp_def upserts_def
               split: option.splits Request.splits UpsertResult.splits)
    ultimately show ?thesis using PushAnswered assms by simp
  next
    case (Notify row)
    have "safeTimers (step g (Notify row) s) = safeTimers s"
      by (rule safeTimers_eq)
         (auto simp: step_def onChange_def setSyncTimestamp_def setDateCells_def Let_def
               split: option.splits)
    moreover have "upserts (step g (Notify row) s) = upserts s"
      by (auto simp: step_def onChange_def setSyncTimestamp_def setDateCells_def Let_def
                     upserts_def
               split: option.splits)
    ultimately show ?thesis using Notify assms by simp
  next
    case (Advance dt now)
    then show ?thesis using advance_safe [OF assms, of dt now] by (simp add: step_def)
  qed
  show "safeTimers (step g e s)" using both by simp
  show "list_all nonEmptyUpsert (upserts (step g e s))"
    if "\<not> isCallPush e" and "list_all nonEmptyUpsert (upserts s)"
    using both that by simp
qed

lemma run_safeTimers: "safeTimers s \<Longrightarrow> safeTimers (run g es s)"
  by (induction es arbitrary: s) (simp_all add: step_safe(1))

lemma run_safe:
  assumes "safeTimers s" and "\<forall>e \<in> set es. \<not> isCallPush e"
      and "list_all nonEmptyUpsert (upserts s)"
  shows "list_all nonEmptyUpsert (upserts (run g es s))"
  using assms
proof (induction es arbitrary: s)
  case Nil
  then show ?case by simp
next
  case (Cons e es)
  from Cons.prems have e: "\<not> isCallPush e" and es: "\<forall>e \<in> set es. \<not> isCallPush e" by auto
  have "list_all nonEmptyUpsert (upserts (step g e s))"
    using step_safe(2) [OF Cons.prems(1) e Cons.prems(3)] .
  with Cons.IH [OF step_safe(1) [OF Cons.prems(1)] es] show ?case by simp
qed

lemma mount_safe:
  "safeTimers (mount sb u y m ts now)"
  "upserts (mount sb u y m ts now) = []"
proof -
  let ?s0 = "unmounted sb u y m ts now"
  have t: "timers (realtimeEffect (pullEffect ?s0)) = []"
    by (simp add: realtimeEffect_fields pullEffect_fields) (simp add: unmounted_def)
  show "safeTimers (mount sb u y m ts now)"
    unfolding mount_def using t by (rule autoPushEffect_safe)
  have "upserts (realtimeEffect (pullEffect ?s0)) = upserts ?s0"
    by (simp add: realtimeEffect_fields pullEffect_fields)
  then show "upserts (mount sb u y m ts now) = []"
    unfolding mount_def
    by (simp add: upserts_calls [OF autoPushEffect_calls]) (simp add: unmounted_def upserts_def)
qed

lemma auto_push_never_empty:
  assumes "\<forall>e \<in> set es. \<not> isCallPush e"
      and "Upsert usr yr cells ts' \<in> set (calls (run g es (mount sb u y m ts now)))"
  shows "cells \<noteq> []"
proof -
  have "list_all nonEmptyUpsert (upserts (run g es (mount sb u y m ts now)))"
    by (rule run_safe [OF mount_safe(1) assms(1)]) (simp add: mount_safe(2))
  moreover have "Upsert usr yr cells ts' \<in> set (upserts (run g es (mount sb u y m ts now)))"
    using assms(2) by (simp add: upserts_def)
  ultimately show ?thesis by (auto simp: list_all_iff)
qed

text \<open>
  In every state that the mounted hook can reach, the only pending timeout is the debounce
  timer: the condition on timeouts in the theorems on debounce and on changes from the
  channel holds throughout.
\<close>

lemma reachable_debounceOnly: "debounceOnly (run g es (mount sb u y m ts now))"
  using run_safeTimers [OF mount_safe(1), of g es sb u y m ts now] by (simp add: safeTimers_def)

text \<open>
  In every state that the mounted hook can reach, a timeout is pending only if the flag of
  the initial pull is set: the push is scheduled only after a pull of the mount effect was
  answered.
\<close>

lemma step_scheduled_after_pull:
  assumes "debounceOnly s" and "timers s = [] \<or> initialPullDoneRef s"
  shows "timers (step g e s) = [] \<or> initialPullDoneRef (step g e s)"
proof (cases e)
  case (AuthChanged u)
  have "debounceOnly (s\<lparr>user := u\<rparr>)" using assms(1) by (simp add: debounceOnly_def)
  from commitKeyChange_quiet(1) [OF this] show ?thesis
    using AuthChanged assms(2) by (simp add: step_def)
next
  case (YearChanged y)
  have "debounceOnly (s\<lparr>year := y\<rparr>)" using assms(1) by (simp add: debounceOnly_def)
  from commitKeyChange_quiet(1) [OF this] show ?thesis
    using YearChanged assms(2) by (simp add: step_def)
next
  case (DocChanged m)
  have "debounceOnly (s\<lparr>dateCells := m\<rparr>)" using assms(1) by (simp add: debounceOnly_def)
  then have "timers (autoPushCleanupRun (s\<lparr>dateCells := m\<rparr>)) = []" by (rule cleanup_clears)
  then show ?thesis
    using DocChanged
    by (simp add: step_def commitDocChange_def autoPushEffect_def Let_def clearTimeout_def
             split: option.splits)
next
  case (CallPush usr yr)
  then show ?thesis
    using assms(2) by (auto simp: step_def pushToCloud_def await_def Let_def split: option.splits)
next
  case (CallPull usr yr)
  then show ?thesis
    using assms(2) by (auto simp: step_def pullFromCloud_def await_def split: option.splits)
next
  case (PullAnswered i r)
  then show ?thesis
    using assms(2)
    by (auto simp: step_def pullResolved_def setSyncTimestamp_def setDateCells_def Let_def
             split: option.splits Request.splits FetchResult.splits)
next
  case (PushAnswered i r)
  then show ?thesis
    using assms(2)
    by (auto simp: step_def pushResolved_def setSyncTimestamp_def
             split: option.splits Request.splits UpsertResult.splits)
next
  case (Notify row)
  then show ?thesis
    using assms(2)
    by (auto simp: step_def onChange_def setSyncTimestamp_def setDateCells_def Let_def
             split: option.splits)
next
  case (Advance dt now)
  show ?thesis
  proof (cases "timers s = []")
    case True
    then show ?thesis using Advance by (simp add: step_def advance_def fireTimers_nil)
  next
    case False
    with assms(1) obtain x where "timers s = [x]"
      by (auto simp: debounceOnly_def map_eq_Cons_conv split: option.splits)
    then show ?thesis
      using Advance assms(2) False
      by (auto simp: step_def advance_def pushToCloud_def await_def Let_def split: option.splits)
  qed
qed

lemma reachable_scheduled_after_pull:
  "timers (run g es (mount sb u y m ts now)) = []
   \<or> initialPullDoneRef (run g es (mount sb u y m ts now))"
proof -
  have "debounceOnly (run g es s) \<and> (timers (run g es s) = [] \<or> initialPullDoneRef (run g es s))"
    if "safeTimers s" and "timers s = [] \<or> initialPullDoneRef s" for s
    using that
  proof (induction es arbitrary: s)
    case Nil
    then show ?case by (simp add: safeTimers_def)
  next
    case (Cons e es)
    have d: "debounceOnly s" using Cons.prems(1) by (simp add: safeTimers_def)
    from Cons.IH [OF step_safe(1) [OF Cons.prems(1)]
                     step_scheduled_after_pull [OF d Cons.prems(2)]]
    show ?case by simp
  qed
  moreover have "timers (mount sb u y m ts now) = [] \<or> initialPullDoneRef (mount sb u y m ts now)"
    by (auto simp: model_defs split: option.splits)
  ultimately show ?thesis using mount_safe(1) by blast
qed

text \<open>
  Enabling leads to the state from which the theorem on the time before the initial pull
  starts: after the mount, and after every change of the user or of the year that leaves sync
  enabled, the flag of the initial pull is reset and no timeout is pending.
\<close>

lemma mount_unhydrated:
  assumes "isEnabled (mount sb u y m ts now)"
  shows "\<not> initialPullDoneRef (mount sb u y m ts now) \<and> timers (mount sb u y m ts now) = []"
  using assms by (auto simp: model_defs split: option.splits)

lemma enabling_unhydrated:
  assumes "debounceOnly s" and "e = AuthChanged (Some usr) \<or> (e = YearChanged yr \<and> yr \<noteq> year s)"
      and "isEnabled (step g e s)"
  shows "\<not> initialPullDoneRef (step g e s) \<and> timers (step g e s) = []"
proof -
  from assms(2) obtain s0 where s0: "step g e s = commitKeyChange s0" and d: "debounceOnly s0"
    using assms(1) by (auto simp: step_def debounceOnly_def)
  from commitKeyChange_quiet(1,3) [OF d] assms(3) show ?thesis unfolding s0 by simp
qed

text \<open>
  Claim C2 says that no upsert is ever made while the local document is empty, neither by the
  debounced push nor by a push that the host asks for. The source says the same where the
  auto-push effect tests \<^verbatim>\<open>dateCells.size === 0\<close> (``Never push empty data to cloud''). The
  function \<^verbatim>\<open>pushToCloud\<close>, which the hook returns and the button ``Sync now'' calls, has no
  such test: called on the hydrated hook, whose document is empty, it upserts the empty
  document.
\<close>

theorem explicit_push_of_empty_document:
  "dateCells hydrated = []
   \<and> calls (step parseIso (CallPush (Some testUser) 2025) hydrated)
       = [Fetch testUser 2025, Subscribe 2025 1 testUser,
          Upsert testUser 2025 [] ''2025-06-01T11:59:00.000Z'']"
  by (simp add: hydrated_def freshMount_def model_defs data_defs)

end
